theory Spec2Isabelle
  imports Main "HOL-Library.Word"
begin

section \<open>Compressor names (maketar.c)\<close>

text \<open>
  A C string is modelled by the list of its bytes before the terminating NUL; a
  \<open>const char*\<close> argument that may be NULL is a \<open>string option\<close>.
\<close>

datatype COMPRESSOR =
    COMPRESSOR_NONE
  | COMPRESSOR_LZ4
  | COMPRESSOR_GZIP
  | COMPRESSOR_BZIP2
  | COMPRESSOR_XZ
  | COMPRESSOR_INVALID

text \<open>\<open>strcmp\<close> of the C library: the bytes are compared as unsigned values.\<close>

fun strcmp :: "string \<Rightarrow> string \<Rightarrow> int" where
  "strcmp [] [] = 0"
| "strcmp [] (y # ys) = - int (of_char y)"
| "strcmp (x # xs) [] = int (of_char x)"
| "strcmp (x # xs) (y # ys) =
     (if x = y then strcmp xs ys else int (of_char x) - int (of_char y))"

text \<open>
  One step of the two loops of \<open>strcmp_nocase\<close>:
  \<^verbatim>\<open>if (c >= 'A' && c <= 'Z') c += 'a' - 'A';\<close>
\<close>

definition lower_char :: "char \<Rightarrow> char" where
  "lower_char c =
     (if (65::nat) \<le> of_char c \<and> of_char c \<le> (90::nat)
      then char_of (of_char c + (32::nat)) else c)"

text \<open>
  \<open>strcmp_nocase\<close>. The first argument says whether both calls of \<open>malloc\<close>
  succeed; when one fails the function logs and returns \<open>-1\<close>.
\<close>

definition strcmp_nocase :: "bool \<Rightarrow> string \<Rightarrow> string \<Rightarrow> int" where
  "strcmp_nocase mem str1 str2 =
     (if \<not> mem then - 1
      else strcmp (map lower_char str1) (map lower_char str2))"

text \<open>
  \<open>get_compressor_byname\<close>. \<open>heap k\<close> tells whether the allocations of the
  \<open>k\<close>-th comparison (in source order) succeed. A NULL argument makes
  \<open>return_ifnull\<close> return \<open>-1\<close>, which is no enumerator: \<open>Inl (- 1)\<close>.
\<close>

definition get_compressor_byname :: "(nat \<Rightarrow> bool) \<Rightarrow> string option \<Rightarrow> int + COMPRESSOR" where
  "get_compressor_byname heap compressor =
     (case compressor of
        None \<Rightarrow> Inl (- 1)
      | Some name \<Rightarrow>
          if strcmp_nocase (heap 0) name ''none'' = 0 \<or>
             strcmp_nocase (heap 1) name ''off'' = 0
          then Inr COMPRESSOR_NONE
          else if strcmp_nocase (heap 2) name ''gzip'' = 0 \<or>
                  strcmp_nocase (heap 3) name ''gz'' = 0
          then Inr COMPRESSOR_GZIP
          else if strcmp_nocase (heap 4) name ''bzip2'' = 0 \<or>
                  strcmp_nocase (heap 5) name ''bz2'' = 0
          then Inr COMPRESSOR_BZIP2
          else if strcmp_nocase (heap 6) name ''xz'' = 0
          then Inr COMPRESSOR_XZ
          else if strcmp_nocase (heap 7) name ''lz4'' = 0
          then Inr COMPRESSOR_LZ4
          else Inr COMPRESSOR_INVALID)"

fun compressor_to_string :: "COMPRESSOR \<Rightarrow> string" where
  "compressor_to_string COMPRESSOR_GZIP = ''gzip''"
| "compressor_to_string COMPRESSOR_BZIP2 = ''bzip2''"
| "compressor_to_string COMPRESSOR_XZ = ''xz''"
| "compressor_to_string COMPRESSOR_LZ4 = ''lz4''"
| "compressor_to_string COMPRESSOR_NONE = ''none''"
| "compressor_to_string COMPRESSOR_INVALID = ''unknown''"

text \<open>A heap on which every allocation succeeds.\<close>

definition heap_ok :: "nat \<Rightarrow> bool" where
  "heap_ok k = True"

text \<open>
  Two bytes are the same letter up to ASCII case: they are equal, or one is an upper
  case letter \<open>A..Z\<close> and the other the lower case letter 32 above it.
\<close>

definition same_letter :: "char \<Rightarrow> char \<Rightarrow> bool" where
  "same_letter a b =
     (a = b \<or>
      ((65::nat) \<le> of_char a \<and> of_char a \<le> (90::nat) \<and> of_char b = of_char a + (32::nat)) \<or>
      ((65::nat) \<le> of_char b \<and> of_char b \<le> (90::nat) \<and> of_char a = of_char b + (32::nat)))"

text \<open>The names the resolver knows, in lower case.\<close>

definition compressor_names :: "string list" where
  "compressor_names = [''none'', ''off'', ''gzip'', ''gz'', ''bzip2'', ''bz2'', ''xz'', ''lz4'']"

section \<open>The environment of the crypt module\<close>

type_synonym byte = "8 word"

subsection \<open>The cryptographic library\<close>

text \<open>
  The program calls OpenSSL's EVP interface. Its code is not part of the repository, so
  the library is a parameter: a record of the functions the program uses. A cipher and a
  digest are identified by name; a pointer that may be NULL is an \<open>option\<close>. A call
  that reports failure (\<open>EVP_BytesToKey\<close> returning 0, an Init, Update or Final not
  returning 1) yields \<open>None\<close>. \<open>'ctx\<close> is the state of an \<open>EVP_CIPHER_CTX\<close>.
\<close>

type_synonym EVP_CIPHER = string
type_synonym EVP_MD = string

record 'ctx openssl =
  EVP_enc_null :: EVP_CIPHER
  EVP_sha256 :: EVP_MD
  EVP_CIPHER_key_length :: "EVP_CIPHER option \<Rightarrow> int"
  EVP_CIPHER_iv_length :: "EVP_CIPHER option \<Rightarrow> int"
  EVP_BytesToKey ::
    "EVP_CIPHER option \<Rightarrow> EVP_MD \<Rightarrow> byte list \<Rightarrow> byte list \<Rightarrow> int \<Rightarrow> (byte list \<times> byte list) option"
  EVP_EncryptInit_ex :: "EVP_CIPHER option \<Rightarrow> byte list option \<Rightarrow> byte list option \<Rightarrow> 'ctx option"
  EVP_EncryptUpdate :: "'ctx \<Rightarrow> byte list \<Rightarrow> ('ctx \<times> byte list) option"
  EVP_EncryptFinal_ex :: "'ctx \<Rightarrow> byte list option"
  EVP_DecryptInit_ex :: "EVP_CIPHER option \<Rightarrow> byte list option \<Rightarrow> byte list option \<Rightarrow> 'ctx option"
  EVP_DecryptUpdate :: "'ctx \<Rightarrow> byte list \<Rightarrow> ('ctx \<times> byte list) option"
  EVP_DecryptFinal_ex :: "'ctx \<Rightarrow> byte list option"

subsection \<open>Files, allocation and randomness\<close>

text \<open>
  The places where the crypt module and its callers allocate: the handle, the key, the
  IV, the output buffer and the cipher context (\<open>EVP_CIPHER_CTX_new\<close>).
\<close>

datatype alloc_site = A_fk | A_key | A_iv | A_outbuffer | A_ctx

text \<open>
  One answer of the user to a password prompt: the password typed and the password
  typed again at the verification prompt, or a failure of the terminal.
\<close>

datatype tty_answer = Typed "8 word list" "8 word list" | Tty_fail

text \<open>
  The world the program runs in.
  \<^item> \<open>files\<close>: the content of each path that exists.
  \<^item> \<open>unwritable\<close>: the paths the process may neither create, truncate nor unlink.
  \<^item> \<open>opened\<close>: the paths of the streams that are open.
  \<^item> \<open>ferror_out k\<close>: what \<open>ferror\<close> answers at the \<open>k\<close>-th place
    where the program asks it about its output stream (0 after the header, \<open>k\<close> after
    the \<open>k\<close>-th chunk). The bytes handed to \<open>fwrite\<close> are appended to the file.
  \<^item> \<open>alloc_ok\<close>: whether the allocation at a site succeeds.
  \<^item> \<open>tty\<close>: what the user will type at the coming password prompts.
  \<^item> \<open>stack\<close>: the indeterminate bytes found in a local buffer before it is
    written.
  \<^item> \<open>temp_name\<close>: the name \<open>mkstemp\<close> makes of a template (\<open>None\<close>: no
    temporary file can be created).
  \<^item> \<open>ticks\<close> counts the requests for random bytes; \<open>rand_src t\<close> is what
    \<open>RAND_bytes\<close> delivers at request \<open>t\<close> (\<open>None\<close>: it does not return 1),
    \<open>urandom_src\<close> the bytes of \<open>/dev/urandom\<close> (\<open>None\<close>: it cannot be
    opened), \<open>random_src\<close> the result of \<open>random()\<close>.
\<close>

record world =
  files :: "string \<Rightarrow> byte list option"
  unwritable :: "string set"
  opened :: "string list"
  ferror_out :: "nat \<Rightarrow> bool"
  alloc_ok :: "alloc_site \<Rightarrow> bool"
  ticks :: nat
  rand_src :: "nat \<Rightarrow> (nat \<Rightarrow> byte) option"
  urandom_src :: "(nat \<Rightarrow> nat \<Rightarrow> byte) option"
  random_src :: "nat \<Rightarrow> int"
  tty :: "tty_answer list"
  stack :: "byte list"
  temp_name :: "string \<Rightarrow> string option"

text \<open>\<open>fopen(p, "rb")\<close>: NULL (\<open>None\<close>) when the file does not exist.\<close>

definition fopen_rb :: "world \<Rightarrow> string \<Rightarrow> world option" where
  "fopen_rb w p =
     (case files w p of
        None \<Rightarrow> None
      | Some bs \<Rightarrow> Some (w\<lparr>opened := p # opened w\<rparr>))"

text \<open>\<open>fopen(p, "wb")\<close>: creates the file or truncates it.\<close>

definition fopen_wb :: "world \<Rightarrow> string \<Rightarrow> world option" where
  "fopen_wb w p =
     (if p \<in> unwritable w then None
      else Some (w\<lparr>files := (files w)(p \<mapsto> []), opened := p # opened w\<rparr>))"

definition fwrite :: "world \<Rightarrow> string \<Rightarrow> byte list \<Rightarrow> world" where
  "fwrite w p bs =
     (case files w p of
        None \<Rightarrow> w
      | Some old \<Rightarrow> w\<lparr>files := (files w)(p \<mapsto> old @ bs)\<rparr>)"

definition fclose :: "world \<Rightarrow> string \<Rightarrow> world" where
  "fclose w p = w\<lparr>opened := remove1 p (opened w)\<rparr>"

text \<open>\<open>remove(p)\<close> of the C library.\<close>

definition c_remove :: "world \<Rightarrow> string \<Rightarrow> world" where
  "c_remove w p = (if p \<in> unwritable w then w else w\<lparr>files := (files w)(p := None)\<rparr>)"

definition BUFFER_LEN :: nat where
  "BUFFER_LEN = 2 ^ 16"

text \<open>
  Modelled from the spec: \<open>read_file\<close> (declared in readfile.h, its code is not in
  the sources). "Loop: read a bounded chunk from input": a call delivers the next bytes
  of the stream, at most \<open>length\<close> of them, and returns how many; the caller's
  stream is the list of the bytes not yet read.
\<close>

definition read_file :: "byte list \<Rightarrow> nat \<Rightarrow> byte list" where
  "read_file fp len = take len fp"

section \<open>The crypt module (crypt/crypt.c)\<close>

record crypt_keys =
  key :: "byte list option"
  key_length :: int
  iv :: "byte list option"
  iv_length :: int
  salt :: "byte list"
  encryption :: "EVP_CIPHER option"
  flag_encryption_set :: bool
  flag_keys_set :: bool
  flag_salt_extracted :: bool

text \<open>\<open>crypt_new\<close>: \<open>calloc\<close> gives a handle of zero bytes.\<close>

definition zero_keys :: crypt_keys where
  "zero_keys =
     \<lparr>key = None, key_length = 0, iv = None, iv_length = 0,
      salt = replicate 8 0, encryption = None,
      flag_encryption_set = False, flag_keys_set = False,
      flag_salt_extracted = False\<rparr>"

definition crypt_new :: "world \<Rightarrow> crypt_keys option" where
  "crypt_new w = (if alloc_ok w A_fk then Some zero_keys else None)"

definition tick :: "world \<Rightarrow> world" where
  "tick w = w\<lparr>ticks := Suc (ticks w)\<rparr>"

text \<open>
  \<open>crypt_scrub(data, len)\<close>. The buffer is the list of bytes at \<open>data\<close>; the
  call overwrites \<open>len\<close> bytes from its start, so the result is \<open>len\<close> new bytes
  followed by the rest of the buffer (when \<open>len\<close> exceeds the buffer the result is
  longer than the buffer: the bytes written past its end). Returns 0 when
  \<open>RAND_bytes\<close> delivered, 1 when \<open>/dev/urandom\<close> was read instead, and \<open>-1\<close>
  with the buffer untouched when neither is available. For a negative \<open>len\<close>
  \<open>RAND_bytes\<close> does not return 1, and the loop over \<open>/dev/urandom\<close> writes
  nothing.
\<close>

definition crypt_scrub :: "world \<Rightarrow> byte list option \<Rightarrow> int \<Rightarrow> int \<times> byte list option \<times> world" where
  "crypt_scrub w data len =
     (case data of
        None \<Rightarrow> (- 1, None, w)
      | Some buf \<Rightarrow>
          (case (if len < 0 then None else rand_src w (ticks w)) of
             Some r \<Rightarrow> (0, Some (map r [0..<nat len] @ drop (nat len) buf), tick w)
           | None \<Rightarrow>
               (case urandom_src w of
                  None \<Rightarrow> (- 1, Some buf, tick w)
                | Some u \<Rightarrow>
                    (1, Some (map (u (ticks w)) [0..<nat len] @ drop (nat len) buf), tick w))))"

definition crypt_randc :: "world \<Rightarrow> byte \<times> world" where
  "crypt_randc w =
     (case rand_src w (ticks w) of
        Some r \<Rightarrow> (r 0, tick w)
      | None \<Rightarrow>
          (case urandom_src w of
             None \<Rightarrow> (word_of_int (random_src w (ticks w) mod 256), tick w)
           | Some u \<Rightarrow> (u (ticks w) 0, tick w)))"

text \<open>\<open>crypt_gen_salt\<close>: \<open>gen_csrand(fk->salt, sizeof(fk->salt))\<close>.\<close>

definition crypt_gen_salt :: "world \<Rightarrow> crypt_keys option \<Rightarrow> int \<times> crypt_keys option \<times> world" where
  "crypt_gen_salt w fk =
     (case fk of
        None \<Rightarrow> (- 1, None, w)
      | Some k \<Rightarrow>
          (case crypt_scrub w (Some (salt k)) 8 of
             (rc, Some s, w') \<Rightarrow> (rc, Some (k\<lparr>salt := s\<rparr>), w')
           | (rc, None, w') \<Rightarrow> (rc, Some k, w')))"

text \<open>
  The loop of \<open>crypt_set_salt\<close> and \<open>crypt_extract_salt\<close>:
  \<^verbatim>\<open>for (i = 0; i < sizeof(fk->salt); ++i) fk->salt[i] = src[i];\<close>
\<close>

function salt_loop :: "(nat \<Rightarrow> byte) \<Rightarrow> nat \<Rightarrow> byte list \<Rightarrow> byte list" where
  "salt_loop src i dst = (if i < 8 then salt_loop src (Suc i) (dst[i := src i]) else dst)"
  by pat_completeness auto
termination
  by (relation "measure (\<lambda>(src, i, dst). 8 - i)") auto

text \<open>
  \<open>crypt_set_salt(salt, fk)\<close>. A non-NULL \<open>salt\<close> is the memory it points to, read
  at the indices 0 to 7.
\<close>

definition crypt_set_salt :: "(nat \<Rightarrow> byte) option \<Rightarrow> crypt_keys option \<Rightarrow> int \<times> crypt_keys option" where
  "crypt_set_salt salt_arg fk =
     (case fk of
        None \<Rightarrow> (- 1, None)
      | Some k \<Rightarrow>
          (case salt_arg of
             Some s \<Rightarrow> (0, Some (k\<lparr>salt := salt_loop s 0 (salt k)\<rparr>))
           | None \<Rightarrow> (0, Some (k\<lparr>salt := salt_loop (\<lambda>i. 0) 0 (salt k)\<rparr>))))"

definition crypt_set_encryption ::
  "'ctx openssl \<Rightarrow> EVP_CIPHER option \<Rightarrow> crypt_keys option \<Rightarrow> int \<times> crypt_keys option" where
  "crypt_set_encryption ssl enc fk =
     (case fk of
        None \<Rightarrow> (- 1, None)
      | Some k \<Rightarrow>
          if flag_encryption_set k then (- 1, Some k)
          else
            (case enc of
               Some c \<Rightarrow> (0, Some (k\<lparr>encryption := Some c, flag_encryption_set := True\<rparr>))
             | None \<Rightarrow>
                 (0, Some (k\<lparr>encryption := Some (EVP_enc_null ssl), flag_encryption_set := True\<rparr>))))"

text \<open>
  \<open>crypt_gen_keys(data, data_len, md, iterations, fk)\<close>. The lengths and the two
  buffers are stored in the handle before \<open>EVP_BytesToKey\<close> runs; the bytes of a
  fresh buffer are indeterminate in C and written as zeros here (they are only read
  when \<open>flag_keys_set\<close> is set).
\<close>

definition crypt_gen_keys ::
  "'ctx openssl \<Rightarrow> world \<Rightarrow> byte list option \<Rightarrow> int \<Rightarrow> EVP_MD option \<Rightarrow> int \<Rightarrow> crypt_keys option
   \<Rightarrow> int \<times> crypt_keys option" where
  "crypt_gen_keys ssl w data data_len md iterations fk =
     (case data of
        None \<Rightarrow> (- 1, fk)
      | Some d \<Rightarrow>
          (case fk of
             None \<Rightarrow> (- 1, None)
           | Some k \<Rightarrow>
               let md' = (case md of None \<Rightarrow> EVP_sha256 ssl | Some m \<Rightarrow> m) in
               if \<not> flag_encryption_set k then (- 1, Some k)
               else
                 let k1 = k\<lparr>key_length := EVP_CIPHER_key_length ssl (encryption k),
                            iv_length := EVP_CIPHER_iv_length ssl (encryption k)\<rparr>;
                     k2 = k1\<lparr>key := (if alloc_ok w A_key
                                       then Some (replicate (nat (key_length k1)) 0) else None),
                             iv := (if alloc_ok w A_iv
                                      then Some (replicate (nat (iv_length k1)) 0) else None)\<rparr>
                 in
                   if key k2 = None \<or> iv k2 = None then (- 1, Some k2)
                   else
                     (case EVP_BytesToKey ssl (encryption k2) md' (salt k2)
                             (take (nat data_len) d) iterations of
                        None \<Rightarrow> (- 1, Some k2)
                      | Some (ky, v) \<Rightarrow>
                          (0, Some (k2\<lparr>key := Some ky, iv := Some v, flag_keys_set := True\<rparr>)))))"

text \<open>
  \<open>crypt_free\<close>: scrubs the key and the IV when they were generated. Only the requests
  for random bytes are visible in the world.
\<close>

definition crypt_free :: "world \<Rightarrow> crypt_keys option \<Rightarrow> world" where
  "crypt_free w fk =
     (case fk of
        None \<Rightarrow> w
      | Some k \<Rightarrow>
          if flag_keys_set k
          then
            (case crypt_scrub w (key k) (key_length k) of
               (r1, b1, w1) \<Rightarrow>
                 (case crypt_scrub w1 (iv k) (iv_length k) of (r2, b2, w2) \<Rightarrow> w2))
          else w)"

text \<open>The header of an encrypted file: eight characters, no terminator.\<close>

definition salt_prefix :: "byte list" where
  "salt_prefix = map of_char ''Salted__''"

text \<open>
  The \<open>cleanup:\<close> label shared by \<open>crypt_encrypt_ex\<close> and \<open>crypt_decrypt_ex\<close>:
  close the streams that were opened, and \<open>remove(out)\<close> when \<open>ret\<close> is not 0.
\<close>

definition crypt_cleanup :: "world \<Rightarrow> string option \<Rightarrow> string option \<Rightarrow> string \<Rightarrow> int \<Rightarrow> int \<times> world" where
  "crypt_cleanup w fp_in fp_out out ret =
     (let w1 = (case fp_in of None \<Rightarrow> w | Some p \<Rightarrow> fclose w p);
          w2 = (case fp_out of None \<Rightarrow> w1 | Some p \<Rightarrow> fclose w1 p);
          w3 = (if ret \<noteq> 0 then c_remove w2 out else w2)
      in (ret, w3))"

text \<open>
  The loop of \<open>crypt_encrypt_ex\<close>. \<open>rest\<close> is what is left to read of the input,
  \<open>n\<close> counts the chunks. \<open>Inl\<close>: a step failed (\<open>ret = -1; goto cleanup\<close>).
\<close>

function encrypt_loop ::
  "'ctx openssl \<Rightarrow> world \<Rightarrow> string \<Rightarrow> 'ctx \<Rightarrow> byte list \<Rightarrow> nat \<Rightarrow> world + ('ctx \<times> world)" where
  "encrypt_loop ssl w out ctx rest n =
     (if 0 < length (read_file rest BUFFER_LEN)
      then
        (case EVP_EncryptUpdate ssl ctx (read_file rest BUFFER_LEN) of
           None \<Rightarrow> Inl w
         | Some (ctx', outbuffer) \<Rightarrow>
             if ferror_out w (Suc n) then Inl (fwrite w out outbuffer)
             else encrypt_loop ssl (fwrite w out outbuffer) out ctx' (drop BUFFER_LEN rest) (Suc n))
      else Inr (ctx, w))"
  by pat_completeness auto
termination
  by (relation "measure (\<lambda>(ssl, w, out, ctx, rest, n). length rest)")
     (auto simp: read_file_def BUFFER_LEN_def)

text \<open>
  \<open>crypt_encrypt_ex(in, fk, out, verbose, progress_msg)\<close>; the progress bar is not
  modelled. The input is read after the output was opened, so when both paths are the
  same file the input is empty. Note the branch of \<open>EVP_CIPHER_CTX_new\<close>: the source
  jumps to \<open>cleanup\<close> with \<open>ret\<close> still 0.
\<close>

definition crypt_encrypt_ex ::
  "'ctx openssl \<Rightarrow> world \<Rightarrow> string option \<Rightarrow> crypt_keys option \<Rightarrow> string option \<Rightarrow> int \<times> world" where
  "crypt_encrypt_ex ssl w in_path fk out_path =
     (case in_path of None \<Rightarrow> (- 1, w) | Some i \<Rightarrow>
      case fk of None \<Rightarrow> (- 1, w) | Some k \<Rightarrow>
      case out_path of None \<Rightarrow> (- 1, w) | Some out \<Rightarrow>
      case fopen_rb w i of
        None \<Rightarrow> crypt_cleanup w None None out (- 1)
      | Some w1 \<Rightarrow>
      case fopen_wb w1 out of
        None \<Rightarrow> crypt_cleanup w1 (Some i) None out (- 1)
      | Some w2 \<Rightarrow>
          if \<not> flag_keys_set k then crypt_cleanup w2 (Some i) (Some out) out (- 1)
          else
            let w3 = fwrite w2 out salt_prefix in
            if ferror_out w3 0 then crypt_cleanup w3 (Some i) (Some out) out (- 1)
            else
              let w4 = fwrite w3 out (take 8 (salt k)) in
              if \<not> alloc_ok w4 A_outbuffer then crypt_cleanup w4 (Some i) (Some out) out (- 1)
              else if \<not> alloc_ok w4 A_ctx then crypt_cleanup w4 (Some i) (Some out) out 0
              else
                (case EVP_EncryptInit_ex ssl (encryption k) (key k) (iv k) of
                   None \<Rightarrow> crypt_cleanup w4 (Some i) (Some out) out (- 1)
                 | Some ctx \<Rightarrow>
                     (case encrypt_loop ssl w4 out ctx
                             (case files w2 i of None \<Rightarrow> [] | Some bs \<Rightarrow> bs) 0 of
                        Inl w5 \<Rightarrow> crypt_cleanup w5 (Some i) (Some out) out (- 1)
                      | Inr (ctx', w5) \<Rightarrow>
                          (case EVP_EncryptFinal_ex ssl ctx' of
                             None \<Rightarrow> crypt_cleanup w5 (Some i) (Some out) out (- 1)
                           | Some outbuffer \<Rightarrow>
                               crypt_cleanup (fwrite w5 out outbuffer) (Some i) (Some out) out 0))))"

text \<open>
  \<open>crypt_extract_salt(in, fk)\<close>: reads the 8 bytes of the header and the 8 bytes of
  the salt; the stream is closed on every path.
\<close>

definition crypt_extract_salt :: "world \<Rightarrow> string option \<Rightarrow> crypt_keys option \<Rightarrow> int \<times> crypt_keys option" where
  "crypt_extract_salt w in_path fk =
     (case in_path of None \<Rightarrow> (- 1, fk) | Some i \<Rightarrow>
      case fk of None \<Rightarrow> (- 1, None) | Some k \<Rightarrow>
      case files w i of
        None \<Rightarrow> (- 1, Some k)
      | Some bs \<Rightarrow>
          if length (take 8 bs) \<noteq> 8 then (- 1, Some k)
          else if take 8 bs \<noteq> salt_prefix then (- 1, Some k)
          else if length (take 8 (drop 8 bs)) \<noteq> 8 then (- 1, Some k)
          else (0, Some (k\<lparr>salt := salt_loop (\<lambda>i. drop 8 bs ! i) 0 (salt k),
                            flag_salt_extracted := True\<rparr>)))"

text \<open>The loop of \<open>crypt_decrypt_ex\<close>; its writes are not checked.\<close>

function decrypt_loop ::
  "'ctx openssl \<Rightarrow> world \<Rightarrow> string \<Rightarrow> 'ctx \<Rightarrow> byte list \<Rightarrow> world + ('ctx \<times> world)" where
  "decrypt_loop ssl w out ctx rest =
     (if 0 < length (read_file rest BUFFER_LEN)
      then
        (case EVP_DecryptUpdate ssl ctx (read_file rest BUFFER_LEN) of
           None \<Rightarrow> Inl w
         | Some (ctx', outbuffer) \<Rightarrow>
             decrypt_loop ssl (fwrite w out outbuffer) out ctx' (drop BUFFER_LEN rest))
      else Inr (ctx, w))"
  by pat_completeness auto
termination
  by (relation "measure (\<lambda>(ssl, w, out, ctx, rest). length rest)")
     (auto simp: read_file_def BUFFER_LEN_def)

text \<open>
  \<open>crypt_decrypt_ex(in, fk, out, verbose, progress_msg)\<close>. \<open>fseek\<close> skips the 16
  bytes of header and salt. As in \<open>crypt_encrypt_ex\<close>, a failure of
  \<open>EVP_CIPHER_CTX_new\<close> leaves \<open>ret\<close> at 0.
\<close>

definition crypt_decrypt_ex ::
  "'ctx openssl \<Rightarrow> world \<Rightarrow> string option \<Rightarrow> crypt_keys option \<Rightarrow> string option \<Rightarrow> int \<times> world" where
  "crypt_decrypt_ex ssl w in_path fk out_path =
     (case in_path of None \<Rightarrow> (- 1, w) | Some i \<Rightarrow>
      case fk of None \<Rightarrow> (- 1, w) | Some k \<Rightarrow>
      case out_path of None \<Rightarrow> (- 1, w) | Some out \<Rightarrow>
      case fopen_rb w i of
        None \<Rightarrow> crypt_cleanup w None None out (- 1)
      | Some w1 \<Rightarrow>
      case fopen_wb w1 out of
        None \<Rightarrow> crypt_cleanup w1 (Some i) None out (- 1)
      | Some w2 \<Rightarrow>
          if \<not> flag_keys_set k then crypt_cleanup w2 (Some i) (Some out) out (- 1)
          else if \<not> flag_salt_extracted k then crypt_cleanup w2 (Some i) (Some out) out (- 1)
          else if \<not> alloc_ok w2 A_outbuffer then crypt_cleanup w2 (Some i) (Some out) out (- 1)
          else if \<not> alloc_ok w2 A_ctx then crypt_cleanup w2 (Some i) (Some out) out 0
          else
            (case EVP_DecryptInit_ex ssl (encryption k) (key k) (iv k) of
               None \<Rightarrow> crypt_cleanup w2 (Some i) (Some out) out (- 1)
             | Some ctx \<Rightarrow>
                 (case decrypt_loop ssl w2 out ctx
                         (drop (8 + 8) (case files w2 i of None \<Rightarrow> [] | Some bs \<Rightarrow> bs)) of
                    Inl w5 \<Rightarrow> crypt_cleanup w5 (Some i) (Some out) out (- 1)
                  | Inr (ctx', w5) \<Rightarrow>
                      (case EVP_DecryptFinal_ex ssl ctx' of
                         None \<Rightarrow> crypt_cleanup w5 (Some i) (Some out) out (- 1)
                       | Some outbuffer \<Rightarrow>
                           crypt_cleanup (fwrite w5 out outbuffer) (Some i) (Some out) out 0))))"

section \<open>What the library computes on a whole stream\<close>

text \<open>
  The result of driving the library the way \<open>crypt_encrypt_ex\<close> does, written
  without the files: Init, one Update for each chunk of \<open>BUFFER_LEN\<close> bytes, Final;
  the ciphertext is the concatenation of what Update and Final deliver. These functions
  are used to state the theorems; \<open>evp_decrypt\<close> is the same for decryption.
\<close>

function enc_chunks :: "'ctx openssl \<Rightarrow> 'ctx \<Rightarrow> byte list \<Rightarrow> ('ctx \<times> byte list) option" where
  "enc_chunks ssl ctx rest =
     (if 0 < length (read_file rest BUFFER_LEN)
      then
        (case EVP_EncryptUpdate ssl ctx (read_file rest BUFFER_LEN) of
           None \<Rightarrow> None
         | Some (ctx', outbuffer) \<Rightarrow>
             (case enc_chunks ssl ctx' (drop BUFFER_LEN rest) of
                None \<Rightarrow> None
              | Some (ctx'', later) \<Rightarrow> Some (ctx'', outbuffer @ later)))
      else Some (ctx, []))"
  by pat_completeness auto
termination
  by (relation "measure (\<lambda>(ssl, ctx, rest). length rest)")
     (auto simp: read_file_def BUFFER_LEN_def)

definition evp_encrypt ::
  "'ctx openssl \<Rightarrow> EVP_CIPHER option \<Rightarrow> byte list option \<Rightarrow> byte list option \<Rightarrow> byte list
   \<Rightarrow> byte list option" where
  "evp_encrypt ssl c ky v data =
     (case EVP_EncryptInit_ex ssl c ky v of
        None \<Rightarrow> None
      | Some ctx \<Rightarrow>
          (case enc_chunks ssl ctx data of
             None \<Rightarrow> None
           | Some (ctx', body) \<Rightarrow>
               (case EVP_EncryptFinal_ex ssl ctx' of
                  None \<Rightarrow> None
                | Some fin \<Rightarrow> Some (body @ fin))))"

function dec_chunks :: "'ctx openssl \<Rightarrow> 'ctx \<Rightarrow> byte list \<Rightarrow> ('ctx \<times> byte list) option" where
  "dec_chunks ssl ctx rest =
     (if 0 < length (read_file rest BUFFER_LEN)
      then
        (case EVP_DecryptUpdate ssl ctx (read_file rest BUFFER_LEN) of
           None \<Rightarrow> None
         | Some (ctx', outbuffer) \<Rightarrow>
             (case dec_chunks ssl ctx' (drop BUFFER_LEN rest) of
                None \<Rightarrow> None
              | Some (ctx'', later) \<Rightarrow> Some (ctx'', outbuffer @ later)))
      else Some (ctx, []))"
  by pat_completeness auto
termination
  by (relation "measure (\<lambda>(ssl, ctx, rest). length rest)")
     (auto simp: read_file_def BUFFER_LEN_def)

definition evp_decrypt ::
  "'ctx openssl \<Rightarrow> EVP_CIPHER option \<Rightarrow> byte list option \<Rightarrow> byte list option \<Rightarrow> byte list
   \<Rightarrow> byte list option" where
  "evp_decrypt ssl c ky v data =
     (case EVP_DecryptInit_ex ssl c ky v of
        None \<Rightarrow> None
      | Some ctx \<Rightarrow>
          (case dec_chunks ssl ctx data of
             None \<Rightarrow> None
           | Some (ctx', body) \<Rightarrow>
               (case EVP_DecryptFinal_ex ssl ctx' of
                  None \<Rightarrow> None
                | Some fin \<Rightarrow> Some (body @ fin))))"

section \<open>Calls in sequence\<close>

text \<open>
  The functions of the module other than \<open>crypt_gen_keys\<close> that change a handle, as
  values, so that a theorem can speak of every order in which they are called.
\<close>

datatype api_call =
    Call_set_encryption "EVP_CIPHER option"
  | Call_gen_salt
  | Call_set_salt "(nat \<Rightarrow> byte) option"
  | Call_extract_salt "string option"

fun do_call :: "'ctx openssl \<Rightarrow> api_call \<Rightarrow> crypt_keys option \<times> world \<Rightarrow> crypt_keys option \<times> world" where
  "do_call ssl (Call_set_encryption enc) (fk, w) = (snd (crypt_set_encryption ssl enc fk), w)"
| "do_call ssl Call_gen_salt (fk, w) =
     (case crypt_gen_salt w fk of (rc, fk', w') \<Rightarrow> (fk', w'))"
| "do_call ssl (Call_set_salt s) (fk, w) = (snd (crypt_set_salt s fk), w)"
| "do_call ssl (Call_extract_salt p) (fk, w) = (snd (crypt_extract_salt w p fk), w)"

text \<open>A handle from \<open>crypt_new\<close> after the given calls, none of them \<open>crypt_gen_keys\<close>.\<close>

definition handle_after :: "'ctx openssl \<Rightarrow> world \<Rightarrow> api_call list \<Rightarrow> crypt_keys option \<times> world" where
  "handle_after ssl w calls = fold (do_call ssl) calls (crypt_new w, w)"

text \<open>No keys were generated in a handle (a NULL handle has none).\<close>

definition keys_unset :: "crypt_keys option \<Rightarrow> bool" where
  "keys_unset fk = (case fk of None \<Rightarrow> True | Some k \<Rightarrow> \<not> flag_keys_set k)"

text \<open>
  One use of the module from end to end, as backup.c and the restore path drive it:
  a new handle, the cipher, a salt, keys from the first password, encrypt \<open>src\<close> to
  \<open>enc\<close>; then a new handle, the cipher, the salt read from \<open>enc\<close>, keys from the
  second password, decrypt \<open>enc\<close> to \<open>dst\<close>. The result is the return value of the
  encryption, the return value of the decryption (\<open>None\<close> when a step before it
  returned non-zero or no handle) and the final world.
\<close>

definition encrypt_then_decrypt ::
  "'ctx openssl \<Rightarrow> world \<Rightarrow> EVP_CIPHER option \<Rightarrow> byte list \<Rightarrow> byte list \<Rightarrow> string \<Rightarrow> string \<Rightarrow> string
   \<Rightarrow> int option \<times> int option \<times> world" where
  "encrypt_then_decrypt ssl w c pw1 pw2 src enc dst =
     (case crypt_set_encryption ssl c (crypt_new w) of (r1, fk1) \<Rightarrow>
      case crypt_gen_salt w fk1 of (r2, fk2, wa) \<Rightarrow>
      case crypt_gen_keys ssl wa (Some pw1) (int (length pw1)) None 1 fk2 of (r3, fk3) \<Rightarrow>
      if r1 \<noteq> 0 \<or> r2 \<noteq> 0 \<or> r3 \<noteq> 0 then (None, None, wa)
      else
        (case crypt_encrypt_ex ssl wa (Some src) fk3 (Some enc) of (r4, wb) \<Rightarrow>
         case crypt_set_encryption ssl c (crypt_new wb) of (r5, fk5) \<Rightarrow>
         case crypt_extract_salt wb (Some enc) fk5 of (r6, fk6) \<Rightarrow>
         case crypt_gen_keys ssl wb (Some pw2) (int (length pw2)) None 1 fk6 of (r7, fk7) \<Rightarrow>
         if r4 \<noteq> 0 \<or> r5 \<noteq> 0 \<or> r6 \<noteq> 0 \<or> r7 \<noteq> 0 then (Some r4, None, wb)
         else
           (case crypt_decrypt_ex ssl wb (Some enc) fk7 (Some dst) of (r8, wc) \<Rightarrow>
              (Some r4, Some r8, wc))))"

section \<open>A library instance and a world for the examples\<close>

text \<open>
  A stand-in for a stream cipher, to run the program on concrete inputs: one key byte,
  no IV, no padding; the key byte is the sum of the salt and password bytes, Update adds
  it to (Encrypt) or subtracts it from (Decrypt) every byte, Final delivers nothing. Like
  any unpadded cipher of the real library it never reports a failure. The context is
  the key byte.
\<close>

definition stream_ssl :: "byte openssl" where
  "stream_ssl =
     \<lparr>EVP_enc_null = ''NULL'',
      EVP_sha256 = ''SHA256'',
      EVP_CIPHER_key_length = (\<lambda>c. 1),
      EVP_CIPHER_iv_length = (\<lambda>c. 0),
      EVP_BytesToKey = (\<lambda>c md s d n. Some ([sum_list (s @ d)], [])),
      EVP_EncryptInit_ex = (\<lambda>c ky v. case ky of Some [b] \<Rightarrow> Some b | _ \<Rightarrow> None),
      EVP_EncryptUpdate = (\<lambda>ctx bs. Some (ctx, map (\<lambda>b. b + ctx) bs)),
      EVP_EncryptFinal_ex = (\<lambda>ctx. Some []),
      EVP_DecryptInit_ex = (\<lambda>c ky v. case ky of Some [b] \<Rightarrow> Some b | _ \<Rightarrow> None),
      EVP_DecryptUpdate = (\<lambda>ctx bs. Some (ctx, map (\<lambda>b. b - ctx) bs)),
      EVP_DecryptFinal_ex = (\<lambda>ctx. Some [])\<rparr>"

text \<open>
  A world with one file, in which every allocation succeeds, no write error is
  reported and \<open>RAND_bytes\<close> delivers the bytes \<open>t + i\<close> at request \<open>t\<close>.
  Nobody is at the terminal, and a temporary file is named by its template followed by
  \<open>.1\<close>.
\<close>

definition example_world :: world where
  "example_world =
     \<lparr>files = [''/tmp/plain'' \<mapsto> [1, 2, 3]],
      unwritable = {},
      opened = [],
      ferror_out = (\<lambda>k. False),
      alloc_ok = (\<lambda>a. True),
      ticks = 0,
      rand_src = (\<lambda>t. Some (\<lambda>i. of_nat (t + i))),
      urandom_src = None,
      random_src = (\<lambda>t. 0),
      tty = [],
      stack = replicate 16 0,
      temp_name = (\<lambda>t. Some (t @ ''.1''))\<rparr>"

text \<open>A handle as \<open>crypt_gen_keys\<close> leaves it, with the salt 1 to 8 and the key byte 7.\<close>

definition example_keys :: crypt_keys where
  "example_keys =
     \<lparr>key = Some [7], key_length = 1, iv = Some [], iv_length = 0,
      salt = [1, 2, 3, 4, 5, 6, 7, 8], encryption = Some ''stream'',
      flag_encryption_set = True, flag_keys_set = True, flag_salt_extracted = False\<rparr>"

section \<open>Passwords (backup.c)\<close>

text \<open>
  \<open>strlen\<close> on a buffer: the number of bytes before the first NUL (the whole buffer
  when it holds none; C would read on past its end).
\<close>

definition strlen :: "byte list \<Rightarrow> nat" where
  "strlen buf = length (takeWhile (\<lambda>b. b \<noteq> 0) buf)"

text \<open>
  Modelled from the spec: \<open>crypt_getpassword(prompt, verify_prompt, out, out_len)\<close>
  (declared in crypt.h, its code is not in the sources). "Prompt the user with echo
  suppressed; optionally re-prompt for verification and require byte-exact match." It
  returns 0 and leaves the password, NUL-terminated and cut to \<open>out_len - 1\<close> bytes, at
  the start of \<open>out\<close>; it returns a positive value when the two entries differ and a
  negative value when the terminal fails (here also when nobody answers). \<open>verify\<close>
  says whether a verification prompt was given.
\<close>

definition crypt_getpassword ::
  "tty_answer list \<Rightarrow> bool \<Rightarrow> byte list \<Rightarrow> nat \<Rightarrow> int \<times> byte list \<times> tty_answer list" where
  "crypt_getpassword t verify out out_len =
     (case t of
        [] \<Rightarrow> (- 1, out, [])
      | Tty_fail # rest \<Rightarrow> (- 1, out, rest)
      | Typed p v # rest \<Rightarrow>
          if verify \<and> p \<noteq> v then (1, out, rest)
          else (0, take (out_len - 1) p @ [0] @ drop (length (take (out_len - 1) p) + 1) out, rest))"

text \<open>
  The statement that follows key derivation on every path:
  \<^verbatim>\<open>crypt_scrub(pwbuffer, strlen(pwbuffer) + 5 + crypt_randc() % 11);\<close>
  Its return value is not looked at. The result is the buffer after the call.
\<close>

definition scrub_password :: "world \<Rightarrow> byte list \<Rightarrow> byte list \<times> world" where
  "scrub_password w pwbuffer =
     (case crypt_randc w of
        (c, w1) \<Rightarrow>
          (case crypt_scrub w1 (Some pwbuffer) (int (strlen pwbuffer) + 5 + int (unat c mod 11)) of
             (r, Some b, w2) \<Rightarrow> (b, w2)
           | (r, None, w2) \<Rightarrow> (pwbuffer, w2)))"


text \<open>
  Where the program leaves defined behaviour, a result is the fault it commits: a read
  of a variable that was never assigned, a second \<open>free\<close> of a block, a call on a
  handle that was freed. Nothing is said of what happens after.
\<close>

datatype fault = Uninitialised_read | Double_free | Use_after_free

text \<open>
  \<open>encrypt_file(in, out, enc_algorithm, verbose)\<close>. The result is the return value,
  the content of \<open>pwbuffer\<close> when the function returns, and the world. Core-dump
  limits and log messages are not part of the world. After \<open>crypt_gen_salt\<close> the
  function builds its prompt with \<open>EVP_CIPHER_name(enc)\<close>, and \<open>enc\<close> is a local
  pointer that no statement assigns (the argument is \<open>enc_algorithm\<close>): the read is
  a fault, and it comes before the password is asked for. The paths that do return, after
  \<open>crypt_new\<close>, go through \<open>cleanup\<close>, which ends in \<open>return 0\<close>.
\<close>

definition encrypt_file ::
  "'ctx openssl \<Rightarrow> world \<Rightarrow> string option \<Rightarrow> string option \<Rightarrow> EVP_CIPHER option
   \<Rightarrow> fault + (int \<times> byte list \<times> world)" where
  "encrypt_file ssl w in_path out_path enc_algorithm =
     (case crypt_new w of None \<Rightarrow> Inr (- 1, stack w, w) | Some fk0 \<Rightarrow>
      case crypt_set_encryption ssl enc_algorithm (Some fk0) of (r1, fk1) \<Rightarrow>
      if r1 \<noteq> 0 then Inr (0, stack w, crypt_free w fk1)
      else
      case crypt_gen_salt w fk1 of (r2, fk2, w2) \<Rightarrow>
      if r2 \<noteq> 0 then Inr (0, stack w, crypt_free w2 fk2)
      else Inl Uninitialised_read)"

section \<open>Reading an archive (maketar.c)\<close>

text \<open>
  The archive library (libarchive) is not part of the repository. What the program sees
  of it when it reads an archive is a parameter: the status of opening the file, then for
  each header the status of \<open>archive_read_next_header\<close>, the path of the entry, the
  status of \<open>archive_write_header\<close> on the disk writer and, for \<open>copy_data\<close>, the
  blocks with the statuses of \<open>archive_read_data_block\<close> and
  \<open>archive_write_data_block\<close>; the end of a list stands for \<open>ARCHIVE_EOF\<close>.
\<close>

definition ARCHIVE_EOF :: int where "ARCHIVE_EOF = 1"
definition ARCHIVE_OK :: int where "ARCHIVE_OK = 0"
definition ARCHIVE_WARN :: int where "ARCHIVE_WARN = - 20"
definition ARCHIVE_FAILED :: int where "ARCHIVE_FAILED = - 25"

record la_block =
  rd_ret :: int
  wr_ret :: int
  payload :: "byte list"

record la_entry =
  hdr_ret :: int
  pathname :: string
  whdr_ret :: int
  blocks :: "la_block list"

record la_archive =
  open_ret :: int
  entries :: "la_entry list"
  finish_ret :: int

text \<open>
  \<open>archive_read\<close>: how the library reads a file of the given bytes (\<open>None\<close>: the
  file does not exist). \<open>archive_write\<close>: the bytes of the archive it writes for the
  given members.
\<close>

record libarchive =
  archive_read :: "byte list option \<Rightarrow> la_archive"
  archive_write :: "(string \<times> byte list) list \<Rightarrow> byte list"

text \<open>\<open>copy_data\<close>: the blocks of one entry, appended to the file being extracted.\<close>

fun copy_data :: "world \<Rightarrow> string \<Rightarrow> la_block list \<Rightarrow> int \<times> world" where
  "copy_data w out [] = (0, w)"
| "copy_data w out (b # bs) =
     (if rd_ret b = ARCHIVE_EOF then (0, w)
      else if rd_ret b = ARCHIVE_OK \<or> rd_ret b = ARCHIVE_WARN
      then
        (if wr_ret b = ARCHIVE_OK \<or> wr_ret b = ARCHIVE_WARN
         then copy_data (fwrite w out (payload b)) out bs
         else (- 1, w))
      else (- 1, w))"

text \<open>
  The header loop of \<open>tar_extract_file\<close>. \<open>Inl r\<close>: the function returns \<open>r\<close>
  (the \<open>return ARCHIVE_EOF\<close> at the end of the archive, or \<open>ret = -1; goto cleanup\<close>);
  \<open>Inr w\<close>: the \<open>break\<close> after the entry was copied.
\<close>

fun extract_loop :: "world \<Rightarrow> la_entry list \<Rightarrow> string \<Rightarrow> string \<Rightarrow> (int \<times> world) + world" where
  "extract_loop w [] file_intar file_out = Inl (ARCHIVE_EOF, w)"
| "extract_loop w (e # es) file_intar file_out =
     (if hdr_ret e = ARCHIVE_EOF then Inl (ARCHIVE_EOF, w)
      else if hdr_ret e = ARCHIVE_FAILED then extract_loop w es file_intar file_out
      else if hdr_ret e \<noteq> ARCHIVE_OK \<and> hdr_ret e \<noteq> ARCHIVE_WARN then Inl (- 1, w)
      else if strcmp (pathname e) file_intar \<noteq> 0 then extract_loop w es file_intar file_out
      else if whdr_ret e = ARCHIVE_FAILED then extract_loop w es file_intar file_out
      else if whdr_ret e \<noteq> ARCHIVE_OK \<and> whdr_ret e \<noteq> ARCHIVE_WARN then Inl (- 1, w)
      else
        (case copy_data (w\<lparr>files := (files w)(file_out \<mapsto> [])\<rparr>) file_out (blocks e) of
           (r, w') \<Rightarrow> if r = ARCHIVE_OK then Inr w' else Inl (- 1, w')))"

text \<open>
  \<open>tar_extract_file(tarchive, file_intar, file_out)\<close>: writes the first entry named
  \<open>file_intar\<close> to \<open>file_out\<close>.
\<close>

definition tar_extract_file ::
  "libarchive \<Rightarrow> world \<Rightarrow> string option \<Rightarrow> string option \<Rightarrow> string option \<Rightarrow> int \<times> world" where
  "tar_extract_file la w tarchive file_intar file_out =
     (case tarchive of None \<Rightarrow> (- 1, w) | Some ta \<Rightarrow>
      case file_intar of None \<Rightarrow> (- 1, w) | Some fi \<Rightarrow>
      case file_out of None \<Rightarrow> (- 1, w) | Some fo \<Rightarrow>
        let a = archive_read la (files w ta) in
        if open_ret a \<noteq> ARCHIVE_OK \<and> open_ret a \<noteq> ARCHIVE_WARN then (- 1, w)
        else
          (case extract_loop w (entries a) fi fo of
             Inl (r, w') \<Rightarrow> (r, w')
           | Inr w' \<Rightarrow> (finish_ret a, w')))"

section \<open>Temporary files\<close>

text \<open>
  Modelled from the spec: \<open>temp_fopen\<close>, \<open>temp_fclose\<close> and \<open>shred_file\<close> (their
  code is not in the sources). "Temp files live under /var/tmp with mkstemp-style unique
  suffixes; each is owned by exactly one component scope and removed when that scope
  ends"; "Shred (overwrite-then-unlink)". \<open>temp_fopen\<close> creates an empty file under the
  name made of the template and returns that name, or NULL; \<open>temp_fclose\<close> and
  \<open>shred_file\<close> remove the file.
\<close>

definition temp_fopen :: "world \<Rightarrow> string \<Rightarrow> string option \<times> world" where
  "temp_fopen w template =
     (case temp_name w template of
        None \<Rightarrow> (None, w)
      | Some name \<Rightarrow> (Some name, w\<lparr>files := (files w)(name \<mapsto> [])\<rparr>))"

definition temp_fclose :: "world \<Rightarrow> string option \<Rightarrow> int \<times> world" where
  "temp_fclose w tfp =
     (case tfp of
        None \<Rightarrow> (- 1, w)
      | Some name \<Rightarrow> (0, w\<lparr>files := (files w)(name := None)\<rparr>))"

definition shred_file :: "world \<Rightarrow> string \<Rightarrow> world" where
  "shred_file w name = w\<lparr>files := (files w)(name := None)\<rparr>"

section \<open>The checksums of the previous backup (backup.c)\<close>

text \<open>
  The end of \<open>extract_prev_checksums\<close>: \<open>crypt_free(fk)\<close>, and \<open>temp_fclose\<close> of
  the temporary file when it was created.
\<close>

definition extract_cleanup ::
  "world \<Rightarrow> crypt_keys option \<Rightarrow> string option \<Rightarrow> int \<Rightarrow> byte list \<Rightarrow> int \<times> byte list \<times> world" where
  "extract_cleanup w fk tfp_decrypt ret pwbuffer =
     (let w1 = crypt_free w fk;
          w2 = (case tfp_decrypt of None \<Rightarrow> w1 | Some name \<Rightarrow> snd (temp_fclose w1 (Some name)))
      in (ret, pwbuffer, w2))"

text \<open>
  \<open>extract_prev_checksums\<close> from \<open>crypt_new\<close> to the statement after
  \<open>crypt_gen_keys\<close> (backup.c:86-116), the part in which the password is in memory.
  \<open>Inl\<close>: the function is over, with its return value, the content of \<open>pwbuffer\<close>
  and the world (a \<open>return\<close>, or \<open>ret = -1; goto cleanup\<close> and the cleanup).
  \<open>Inr\<close>: it goes on to create the temporary file, with the handle, the content of
  \<open>pwbuffer\<close> and the world. The only statement between the return of
  \<open>crypt_gen_keys\<close> and either exit is the scrub.
\<close>

definition extract_prev_keys ::
  "'ctx openssl \<Rightarrow> world \<Rightarrow> string option \<Rightarrow> EVP_CIPHER option
   \<Rightarrow> (int \<times> byte list \<times> world) + (crypt_keys option \<times> byte list \<times> world)" where
  "extract_prev_keys ssl w in_path enc_algorithm =
     (case crypt_new w of None \<Rightarrow> Inl (- 1, stack w, w) | Some fk0 \<Rightarrow>
      case crypt_set_encryption ssl enc_algorithm (Some fk0) of (r1, fk1) \<Rightarrow>
      if r1 \<noteq> 0 then Inl (extract_cleanup w fk1 None (- 1) (stack w))
      else
      case crypt_extract_salt w in_path fk1 of (r2, fk2) \<Rightarrow>
      if r2 \<noteq> 0 then Inl (extract_cleanup w fk2 None (- 1) (stack w))
      else
      case crypt_getpassword (tty w) False (stack w) 1024 of (r3, pwbuffer, t') \<Rightarrow>
      if r3 \<noteq> 0 then Inl (extract_cleanup (w\<lparr>tty := t'\<rparr>) fk2 None (- 1) pwbuffer)
      else
      case crypt_gen_keys ssl (w\<lparr>tty := t'\<rparr>) (Some pwbuffer)
             (int (strlen pwbuffer)) None 1 fk2 of (r4, fk4) \<Rightarrow>
      case scrub_password (w\<lparr>tty := t'\<rparr>) pwbuffer of (pb, w4) \<Rightarrow>
      if r4 \<noteq> 0 then Inl (extract_cleanup w4 fk4 None (- 1) pb)
      else Inr (fk4, pb, w4))"

text \<open>
  \<open>extract_prev_checksums(in, out, enc_algorithm, verbose)\<close>. The result is the return
  value, the content of \<open>pwbuffer\<close> at the return, and the world. As in the source,
  \<open>crypt_decrypt_ex\<close> is given \<open>out\<close> as its output and \<open>tar_extract_file\<close> is
  given the name of the temporary file as its archive. When \<open>crypt_decrypt_ex\<close>
  fails, \<open>crypt_free(fk)\<close> is called and then \<open>cleanup\<close> calls it again on the
  freed handle.
\<close>

definition extract_prev_checksums ::
  "'ctx openssl \<Rightarrow> libarchive \<Rightarrow> world \<Rightarrow> string option \<Rightarrow> string option \<Rightarrow> EVP_CIPHER option
   \<Rightarrow> fault + (int \<times> byte list \<times> world)" where
  "extract_prev_checksums ssl la w in_path out_path enc_algorithm =
     (if in_path = None \<or> out_path = None \<or> enc_algorithm = None then Inr (- 1, stack w, w)
      else
      case extract_prev_keys ssl w in_path enc_algorithm of
        Inl r \<Rightarrow> Inr r
      | Inr (fk4, pb, w4) \<Rightarrow>
      case temp_fopen w4 ''/var/tmp/decrypt_XXXXXX'' of
        (None, w5) \<Rightarrow> Inr (extract_cleanup w5 fk4 None (- 1) pb)
      | (Some tname, w5) \<Rightarrow>
      case crypt_decrypt_ex ssl w5 in_path fk4 out_path of (r6, w6) \<Rightarrow>
      if r6 \<noteq> 0 then Inl Double_free
      else
      case tar_extract_file la w6 (Some tname) (Some ''/checksums'') out_path of (r7, w7) \<Rightarrow>
      if r7 \<noteq> 0 then Inr (extract_cleanup w7 fk4 (Some tname) (- 1) pb)
      else Inr (extract_cleanup (shred_file w7 tname) fk4 (Some tname) 0 pb))"

section \<open>An archive library instance and a previous backup for the examples\<close>

text \<open>
  A stand-in for the archive library: an archive is the byte \<open>0xAA\<close> followed by the
  content of its only member, \<open>/checksums\<close>; an empty file holds no entry, and a file
  that does not exist cannot be opened.
\<close>

definition example_la :: libarchive where
  "example_la =
     \<lparr>archive_read =
        (\<lambda>f. case f of
               None \<Rightarrow> \<lparr>open_ret = ARCHIVE_FAILED, entries = [], finish_ret = ARCHIVE_OK\<rparr>
             | Some [] \<Rightarrow> \<lparr>open_ret = ARCHIVE_OK, entries = [], finish_ret = ARCHIVE_OK\<rparr>
             | Some (m # body) \<Rightarrow>
                 \<lparr>open_ret = ARCHIVE_OK,
                  entries = [\<lparr>hdr_ret = ARCHIVE_OK, pathname = ''/checksums'',
                              whdr_ret = ARCHIVE_OK,
                              blocks = [\<lparr>rd_ret = ARCHIVE_OK, wr_ret = ARCHIVE_OK,
                                         payload = body\<rparr>]\<rparr>],
                  finish_ret = ARCHIVE_OK\<rparr>),
      archive_write =
        (\<lambda>ms. 0xAA # concat (map snd (filter (\<lambda>m. fst m = ''/checksums'') ms)))\<rparr>"

text \<open>
  A world with a previous backup \<open>/tmp/prev\<close>: the archive \<open>AA 68 69\<close> (the index
  \<open>68 69\<close>), encrypted by \<open>stream_ssl\<close> with the salt 1 to 8 and the password
  \<open>70 77\<close>, which the user types when asked.
\<close>

definition prev_world :: world where
  "prev_world =
     example_world
       \<lparr>files := [''/tmp/prev'' \<mapsto>
                   [0x53, 0x61, 0x6C, 0x74, 0x65, 0x64, 0x5F, 0x5F, 1, 2, 3, 4, 5, 6, 7, 8,
                    0xB5, 0x73, 0x74]],
        tty := [Typed [0x70, 0x77] [0x70, 0x77]],
        stack := replicate 1024 0\<rparr>"

section \<open>Writing an archive (maketar.c)\<close>

text \<open>
  The options of a run (\<open>struct options\<close>, the fields backup.c reads) and what the
  run asks of its environment beyond the files:
  \<^item> \<open>getenv_HOME\<close>, \<open>getpwuid_dir\<close>: the home directory from the environment
    and from the password database (\<open>None\<close>: NULL);
  \<^item> \<open>time_now\<close>: the decimal digits \<open>sprintf("%ld", time(NULL))\<close> prints;
  \<^item> \<open>directories_alloc_ok\<close>, \<open>path_alloc_ok\<close>: whether the allocations of
    \<open>add_default_directories\<close> and of \<open>path_in_tar\<close> in \<open>func\<close> succeed;
  \<^item> \<open>write_close_ret\<close>: the status of \<open>archive_write_close\<close> for the members
    written;
  \<^item> \<open>rename_ok\<close>: whether \<open>rename\<close> of an existing file to a name succeeds;
    \<open>fclose_ok\<close>: whether \<open>fclose\<close> of the stream written to a name returns 0;
  \<^item> \<open>listing\<close>: the tree below a directory (\<open>None\<close>: it cannot be opened).
\<close>

record options =
  directories :: "string list"
  exclude :: "string list"
  prev_backup :: "string option"
  hash_algorithm :: "EVP_MD option"
  enc_algorithm :: "EVP_CIPHER option"
  comp_algorithm :: COMPRESSOR
  comp_level :: int
  flag_verbose :: bool
  output_directory :: string

datatype fs_entry =
    Regular string
  | Directory string "fs_entry list"
  | Unreadable string

text \<open>
  Modelled from the spec: the digest of a file, \<open>sort_checksum_file\<close>,
  \<open>create_removed_list\<close> and what \<open>write_config_file\<close> writes (checksum.c,
  checksumsort.c and the writer of the configuration are not in the sources). "Streaming
  digest over a file's bytes using a configurable algorithm ... Produces a lowercase hex
  string of fixed width"; "Sort the current DigestIndex"; "RemovedDeriver(prior_index,
  current_sorted_index) -> removed_file"; "Persist Options ... to the config file". Each
  is a function given with the environment: \<open>digest_of\<close> from the algorithm and a
  content to the hexadecimal digest, the next two from the content of the append log to a
  status and the bytes written; \<open>config_name\<close> is the path of the config file
  (\<open>None\<close>: it cannot be determined) and \<open>config_bytes\<close> the bytes that stand
  for the options in it.
\<close>

record checksum_env =
  digest_of :: "EVP_MD option \<Rightarrow> byte list \<Rightarrow> string"
  sort_checksum_file :: "byte list \<Rightarrow> int \<times> byte list"
  create_removed_list :: "byte list \<Rightarrow> int \<times> byte list"
  config_name :: "string option"
  config_bytes :: "options \<Rightarrow> byte list"

record backup_env = checksum_env +
  getenv_HOME :: "string option"
  getpwuid_dir :: "string option"
  time_now :: string
  directories_alloc_ok :: bool
  path_alloc_ok :: bool
  write_close_ret :: "(string \<times> byte list) list \<Rightarrow> int"
  rename_ok :: "string \<Rightarrow> string \<Rightarrow> bool"
  fclose_ok :: "string \<Rightarrow> bool"
  listing :: "string \<Rightarrow> fs_entry list option"

text \<open>
  A \<open>TAR*\<close>: the file the writer was opened on, its filter, and the members handed
  to it so far, each with its name in the archive and its content.
\<close>

record TAR =
  tar_name :: string
  tar_filter :: COMPRESSOR
  members :: "(string \<times> byte list) list"

text \<open>
  \<open>tar_create(filename, comp, compression_level)\<close>: NULL for a NULL filename or a
  negative level. The statuses of the library calls, \<open>archive_write_open_filename\<close>
  among them, are not looked at.
\<close>

definition tar_create :: "string option \<Rightarrow> COMPRESSOR \<Rightarrow> int \<Rightarrow> TAR option" where
  "tar_create filename compressor compression_level =
     (case filename of
        None \<Rightarrow> None
      | Some f \<Rightarrow>
          if compression_level < 0 then None
          else Some \<lparr>tar_name = f, tar_filter = compressor, members = []\<rparr>)"

text \<open>
  \<open>tar_add_file_ex(tp, filename, path_in_tar, verbose, progress_msg)\<close>, with
  \<open>tar_add_fp_ex\<close> in it: -1 for a NULL argument and when the file cannot be opened;
  otherwise the file goes into the archive under \<open>path_in_tar\<close> and the result is 0.
  The statuses of \<open>archive_write_header\<close> and \<open>archive_write_data\<close> are not looked
  at, and \<open>fclose\<close> of the stream read is taken to succeed.
\<close>

definition tar_add_file_ex ::
  "world \<Rightarrow> TAR option \<Rightarrow> string option \<Rightarrow> string option \<Rightarrow> int \<times> TAR option" where
  "tar_add_file_ex w tp filename path_in_tar =
     (case tp of None \<Rightarrow> (- 1, tp) | Some t \<Rightarrow>
      case filename of None \<Rightarrow> (- 1, tp) | Some f \<Rightarrow>
      case path_in_tar of None \<Rightarrow> (- 1, tp) | Some p \<Rightarrow>
      case files w f of
        None \<Rightarrow> (- 1, tp)
      | Some bs \<Rightarrow> (0, Some (t\<lparr>members := members t @ [(p, bs)]\<rparr>)))"

text \<open>
  \<open>tar_close(tp)\<close>, for NULL or a handle that is open: -1 for NULL, otherwise
  \<open>archive_write_close\<close>, \<open>archive_write_free\<close> and 0, whatever the status of
  the close. A close that succeeds leaves the archive of the members in the file; after
  one that fails the file is taken to hold what it held. The handle is freed: a second
  call on it is a fault, which the caller's model records.
\<close>

definition tar_close :: "backup_env \<Rightarrow> libarchive \<Rightarrow> world \<Rightarrow> TAR option \<Rightarrow> int \<times> world" where
  "tar_close env la w tp =
     (case tp of
        None \<Rightarrow> (- 1, w)
      | Some t \<Rightarrow>
          if write_close_ret env (members t) = ARCHIVE_OK
          then (0, w\<lparr>files := (files w)(tar_name t \<mapsto> archive_write la (members t))\<rparr>)
          else (0, w))"

section \<open>The walk over the directories (backup.c)\<close>

record backup_params =
  tp :: "TAR option"
  tfp_hashes :: "string option"
  tfp_hashes_prev :: "string option"
  opt :: options

text \<open>
  Modelled from the spec: \<open>add_checksum_to_file\<close> (checksum.c is not in the
  sources). "compute Digest; consult ChangeDetector; if Changed/New, ArchiveWriter.add_stream
  ...; regardless, append (abs_path, hex) to the current DigestIndex append log", a record
  being \<open>/path/to/file\0ABCDEF123456\n\<close> (checksumsort.h). The result is 1 when the
  index of the previous backup holds the same record, 0 when it does not, and negative,
  with nothing appended, when the file cannot be read.
\<close>

definition checksum_record :: "string \<Rightarrow> string \<Rightarrow> byte list" where
  "checksum_record file hex = map of_char file @ [0] @ map of_char hex @ [0x0A]"

fun records_of :: "byte list \<Rightarrow> byte list \<Rightarrow> byte list list" where
  "records_of acc [] = (if acc = [] then [] else [acc])"
| "records_of acc (b # bs) =
     (if b = 0x0A then (acc @ [b]) # records_of [] bs else records_of (acc @ [b]) bs)"

definition add_checksum_to_file ::
  "backup_env \<Rightarrow> world \<Rightarrow> string \<Rightarrow> EVP_MD option \<Rightarrow> string \<Rightarrow> string option \<Rightarrow> int \<times> world" where
  "add_checksum_to_file env w file md fp_hashes fp_hashes_prev =
     (case files w file of
        None \<Rightarrow> (- 1, w)
      | Some bs \<Rightarrow>
          (let r = checksum_record file (digest_of env md bs);
               w' = fwrite w fp_hashes r;
               prev = (case fp_hashes_prev of
                         None \<Rightarrow> []
                       | Some p \<Rightarrow> (case files w p of None \<Rightarrow> [] | Some c \<Rightarrow> records_of [] c))
           in (if r \<in> set prev then 1 else 0, w')))"

text \<open>
  \<open>func(file, dir, st, params)\<close>, the function \<open>backup\<close> hands to the walk: called
  with a file and the directory that holds it. The result 0 tells the walk to stop
  iterating through this directory. \<open>bparams->tfp_hashes\<close> is not NULL when the walk
  runs (\<open>backup\<close> has returned otherwise); the model takes the empty name for NULL.
\<close>

definition func :: "backup_env \<Rightarrow> world \<Rightarrow> string \<Rightarrow> string \<Rightarrow> backup_params \<Rightarrow> int \<times> backup_params \<times> world" where
  "func env w file dir bparams =
     (if length ''lost+found'' < length dir \<and>
         strcmp (drop (length dir - length ''lost+found'') dir) ''lost+found'' = 0
      then (0, bparams, w)
      else if list_ex (\<lambda>e. strcmp dir e = 0) (exclude (opt bparams))
      then (0, bparams, w)
      else
      case add_checksum_to_file env w file (hash_algorithm (opt bparams))
             (case tfp_hashes bparams of None \<Rightarrow> [] | Some h \<Rightarrow> h)
             (tfp_hashes_prev bparams) of (err, w1) \<Rightarrow>
      if err = 1 then (1, bparams, w1)
      else if \<not> path_alloc_ok env then (0, bparams, w1)
      else
      case tar_add_file_ex w1 (tp bparams) (Some file) (Some (''/files'' @ file)) of (r, tp') \<Rightarrow>
        (1, bparams\<lparr>tp := tp'\<rparr>, w1))"

text \<open>
  Modelled from the spec: \<open>enum_files(dir, func, func_params, error, error_params)\<close>
  (its code is not in the sources). "Yields a sequence of (absolute_path, metadata) for
  every regular file in every configured root, in depth-first order"; "before descending
  into a directory D, if D equals (byte-exact) any entry in the ExclusionSet, skip D and
  its subtree. Additionally, any directory whose last path component equals lost+found is
  skipped"; "a directory that cannot be opened is reported to a user-supplied error hook
  with the OS error; the walk continues with the next sibling"; "Order of siblings is not
  guaranteed".

  \<open>skipped\<close> is the test of the exclusion sentence. The entries of a directory come
  in the order in which the environment lists them, whatever it is. The walk calls
  \<open>func\<close> for each regular file, with the directory that holds the file, and leaves
  the directory it is in when \<open>func\<close> returns 0 ("stop iterating through this
  directory", backup.c). The exclusion set is the one of the options, which the call in
  \<open>backup\<close> passes inside \<open>func_params\<close>. The hook \<open>error\<close> of backup.c
  prints and changes nothing.
\<close>

definition last_component :: "string \<Rightarrow> string" where
  "last_component p = rev (takeWhile (\<lambda>c. c \<noteq> CHR ''/'') (rev p))"

definition skipped :: "string list \<Rightarrow> string \<Rightarrow> bool" where
  "skipped ex d = (d \<in> set ex \<or> last_component d = ''lost+found'')"

fun enum_files ::
  "backup_env \<Rightarrow> string list \<Rightarrow> string \<Rightarrow> fs_entry list \<Rightarrow> backup_params \<times> world
   \<Rightarrow> backup_params \<times> world" where
  "enum_files env ex dir [] s = s"
| "enum_files env ex dir (Regular n # rest) s =
     (case func env (snd s) (dir @ ''/'' @ n) dir (fst s) of
        (r, bp', w') \<Rightarrow> if r = 0 then (bp', w') else enum_files env ex dir rest (bp', w'))"
| "enum_files env ex dir (Directory n sub # rest) s =
     enum_files env ex dir rest
       (if skipped ex (dir @ ''/'' @ n) then s else enum_files env ex (dir @ ''/'' @ n) sub s)"
| "enum_files env ex dir (Unreadable n # rest) s = enum_files env ex dir rest s"

text \<open>
  The call of the walk on a root, which is the first directory it would descend into; a
  root that cannot be opened goes to the hook.
\<close>

definition enum_root :: "backup_env \<Rightarrow> backup_params \<times> world \<Rightarrow> string \<Rightarrow> backup_params \<times> world" where
  "enum_root env s dir =
     (if skipped (exclude (opt (fst s))) dir then s
      else
        (case listing env dir of
           None \<Rightarrow> s
         | Some es \<Rightarrow> enum_files env (exclude (opt (fst s))) dir es s))"

section \<open>What a walk may add\<close>








section \<open>A tree for the examples\<close>








section \<open>A backup run (backup.c)\<close>

text \<open>
  The loop of \<open>rename_ex\<close>, which copies the file when \<open>rename\<close> fails. \<open>Inl\<close>:
  \<open>ferror\<close> reported an error after a chunk.
\<close>

function copy_loop :: "world \<Rightarrow> string \<Rightarrow> byte list \<Rightarrow> nat \<Rightarrow> world + world" where
  "copy_loop w new rest n =
     (if 0 < length (read_file rest BUFFER_LEN)
      then
        if ferror_out w (Suc n) then Inl (fwrite w new (read_file rest BUFFER_LEN))
        else copy_loop (fwrite w new (read_file rest BUFFER_LEN)) new (drop BUFFER_LEN rest) (Suc n)
      else Inr w)"
  by pat_completeness auto
termination
  by (relation "measure (\<lambda>(w, new, rest, n). length rest)")
     (auto simp: read_file_def BUFFER_LEN_def)

text \<open>\<open>rename_ex(_old, _new)\<close>: \<open>rename\<close>, or copy and \<open>remove\<close>.\<close>

definition rename_ex :: "backup_env \<Rightarrow> world \<Rightarrow> string \<Rightarrow> string \<Rightarrow> int \<times> world" where
  "rename_ex env w old new =
     (case files w old of
        None \<Rightarrow> (- 1, w)
      | Some bs \<Rightarrow>
          if rename_ok env old new
          then (0, w\<lparr>files := ((files w)(old := None))(new \<mapsto> bs)\<rparr>)
          else
          case fopen_rb w old of None \<Rightarrow> (- 1, w) | Some w1 \<Rightarrow>
          case fopen_wb w1 new of None \<Rightarrow> (- 1, fclose w1 old) | Some w2 \<Rightarrow>
          case copy_loop w2 new (case files w2 old of None \<Rightarrow> [] | Some c \<Rightarrow> c) 0 of
            Inl w3 \<Rightarrow> (- 1, fclose (fclose w3 old) new)
          | Inr w3 \<Rightarrow>
              if \<not> fclose_ok env new then (- 1, fclose (fclose w3 old) new)
              else (0, c_remove (fclose (fclose w3 old) new) old))"

text \<open>
  \<open>get_default_backup_name(opt, out)\<close>. The test after \<open>malloc\<close> is on \<open>out\<close>,
  which is the address of a variable of the caller, so the function returns 0 on every
  path that returns; the allocation is taken to succeed. \<open>EVP_CIPHER_name\<close> of a
  cipher is the name that stands for it here.
\<close>

definition get_default_backup_name :: "backup_env \<Rightarrow> options \<Rightarrow> int \<times> string" where
  "get_default_backup_name env ops =
     (0, output_directory ops @ ''/backup-'' @ time_now env @ ''.tar'' @
         (case comp_algorithm ops of
            COMPRESSOR_GZIP \<Rightarrow> ''.gz''
          | COMPRESSOR_BZIP2 \<Rightarrow> ''.bz2''
          | COMPRESSOR_XZ \<Rightarrow> ''.xz''
          | COMPRESSOR_LZ4 \<Rightarrow> ''.lz4''
          | _ \<Rightarrow> '''') @
         (case enc_algorithm ops of None \<Rightarrow> '''' | Some c \<Rightarrow> ''.'' @ c))"

text \<open>\<open>add_default_directories(opt)\<close>: the home directory becomes the only root.\<close>

definition add_default_directories :: "backup_env \<Rightarrow> options \<Rightarrow> int \<times> options" where
  "add_default_directories env ops =
     (case (case getenv_HOME env of Some h \<Rightarrow> Some h | None \<Rightarrow> getpwuid_dir env) of
        None \<Rightarrow> (- 1, ops)
      | Some homedir \<Rightarrow>
          if \<not> directories_alloc_ok env then (- 1, ops\<lparr>directories := []\<rparr>)
          else (0, ops\<lparr>directories := [homedir]\<rparr>))"

text \<open>
  Modelled from the spec: \<open>write_config_file(opt)\<close> (its code is not in the
  sources; the one of main.c takes other arguments). "Persist Options ... to the config
  file": non-zero when the name of the config file cannot be determined or the file
  cannot be written, otherwise the file holds the options and the result is 0.
\<close>

definition write_config_file :: "backup_env \<Rightarrow> world \<Rightarrow> options \<Rightarrow> int \<times> world" where
  "write_config_file env w ops =
     (case config_name env of
        None \<Rightarrow> (1, w)
      | Some c \<Rightarrow>
          if c \<in> unwritable w then (1, w)
          else (0, w\<lparr>files := (files w)(c \<mapsto> config_bytes env ops)\<rparr>))"

text \<open>
  The label \<open>cleanup\<close> of \<open>backup\<close>: each handle that is not NULL is closed, and
  \<open>ret\<close> is returned. \<open>tar_closed\<close> says whether \<open>tar_close(bp.tp)\<close> was
  called before: \<open>bp.tp\<close> still holds the freed handle then, and the call here is a
  fault.
\<close>

definition backup_cleanup ::
  "backup_env \<Rightarrow> libarchive \<Rightarrow> world \<Rightarrow> TAR option \<Rightarrow> bool \<Rightarrow> string option \<Rightarrow> string option
   \<Rightarrow> string option \<Rightarrow> int \<Rightarrow> fault + (int \<times> world)" where
  "backup_cleanup env la w tar tar_closed tfp_tar hashes hashes_prev ret =
     (if tar \<noteq> None \<and> tar_closed then Inl Use_after_free
      else
        (let w1 = (case tar of None \<Rightarrow> w | Some t \<Rightarrow> snd (tar_close env la w tar));
             w2 = (case tfp_tar of None \<Rightarrow> w1 | Some n \<Rightarrow> snd (temp_fclose w1 tfp_tar));
             w3 = (case hashes of None \<Rightarrow> w2 | Some n \<Rightarrow> snd (temp_fclose w2 hashes));
             w4 = (case hashes_prev of None \<Rightarrow> w3 | Some n \<Rightarrow> snd (temp_fclose w3 hashes_prev))
         in Inr (ret, w4)))"

text \<open>
  The block "load previous hash file" of \<open>backup\<close>: the name of the temporary file
  with the index of the previous backup, or NULL.
\<close>

definition load_prev_hashes ::
  "'ctx openssl \<Rightarrow> libarchive \<Rightarrow> world \<Rightarrow> options \<Rightarrow> options option
   \<Rightarrow> fault + (string option \<times> world)" where
  "load_prev_hashes ssl la w ops opt_prev =
     (case opt_prev of
        None \<Rightarrow> Inr (None, w)
      | Some op \<Rightarrow>
          if prev_backup op \<noteq> None \<and> hash_algorithm op = hash_algorithm ops
          then
            (case temp_fopen w ''/var/tmp/prev_XXXXXX'' of
               (None, w1) \<Rightarrow> Inr (None, w1)
             | (Some n, w1) \<Rightarrow>
                 (case extract_prev_checksums ssl la w1 (prev_backup op) (Some n)
                         (enc_algorithm op) of
                    Inl f \<Rightarrow> Inl f
                  | Inr (r, pb, w2) \<Rightarrow>
                      if r \<noteq> 0 then Inr (None, snd (temp_fclose w2 (Some n)))
                      else Inr (Some n, w2)))
          else Inr (None, w))"

text \<open>The block of \<open>backup\<close> that adds \<open>/checksums\<close>: a failure is a warning.\<close>

definition add_checksums :: "backup_env \<Rightarrow> world \<Rightarrow> backup_params \<Rightarrow> TAR option \<times> world" where
  "add_checksums env w bp =
     (case temp_fopen w ''/var/tmp/sorted_XXXXXX'' of
        (None, w1) \<Rightarrow> (snd (tar_add_file_ex w1 (tp bp) (tfp_hashes bp) (Some ''/checksums'')), w1)
      | (Some tfp_sorted, w1) \<Rightarrow>
          (case sort_checksum_file env
                  (case tfp_hashes bp of
                     None \<Rightarrow> []
                   | Some h \<Rightarrow> (case files w1 h of None \<Rightarrow> [] | Some c \<Rightarrow> c)) of
             (rs, sorted_bytes) \<Rightarrow>
               (snd (tar_add_file_ex (fwrite w1 tfp_sorted sorted_bytes) (tp bp) (Some tfp_sorted)
                       (Some ''/checksums'')),
                fwrite w1 tfp_sorted sorted_bytes)))"

text \<open>
  The block of \<open>backup\<close> that adds \<open>/removed\<close> and closes the append log: a failure
  is a warning or less.
\<close>

definition add_removed :: "backup_env \<Rightarrow> world \<Rightarrow> TAR option \<Rightarrow> string option \<Rightarrow> TAR option \<times> world" where
  "add_removed env w tar hashes =
     (case (case temp_fopen w ''/var/tmp/removed_XXXXXX'' of
              (None, w1) \<Rightarrow> (None, w1)
            | (Some removed, w1) \<Rightarrow>
                (case create_removed_list env
                        (case hashes of
                           None \<Rightarrow> []
                         | Some h \<Rightarrow> (case files w1 h of None \<Rightarrow> [] | Some c \<Rightarrow> c)) of
                   (rr, removed_bytes) \<Rightarrow>
                     if rr \<noteq> 0 then (None, snd (temp_fclose w1 (Some removed)))
                     else (Some removed, fwrite w1 removed removed_bytes))) of
        (tfp_removed, w2) \<Rightarrow>
          (case temp_fclose w2 hashes of (rc, w3) \<Rightarrow>
             (case tfp_removed of
                None \<Rightarrow> (tar, snd (temp_fclose w3 None))
              | Some removed \<Rightarrow>
                  (snd (tar_add_file_ex w3 tar tfp_removed (Some ''/removed'')),
                   snd (temp_fclose w3 tfp_removed)))))"

text \<open>
  Steps 8 to 10 of \<open>backup\<close> (backup.c:503-520): \<open>tar_close\<close>, then
  \<open>encrypt_file\<close> or \<open>rename_ex\<close>, then \<open>write_config_file\<close>. A non-zero
  result of any of the three goes to \<open>log_warning\<close>; no statement here assigns
  \<open>ret\<close> or leaves the sequence. The result is the world at the label \<open>cleanup\<close>.
\<close>

definition backup_finish ::
  "'ctx openssl \<Rightarrow> libarchive \<Rightarrow> backup_env \<Rightarrow> world \<Rightarrow> TAR option \<Rightarrow> options \<Rightarrow> string \<Rightarrow> string
   \<Rightarrow> fault + world" where
  "backup_finish ssl la env w tar ops tfp_tar file_out =
     (case tar_close env la w tar of (r8, w5) \<Rightarrow>
      case (case enc_algorithm ops of
              Some c \<Rightarrow>
                (case encrypt_file ssl w5 (Some tfp_tar) (Some file_out) (Some c) of
                   Inl f \<Rightarrow> Inl f
                 | Inr (r, pb, w') \<Rightarrow> Inr (r, w'))
            | None \<Rightarrow> Inr (rename_ex env w5 tfp_tar file_out)) of
        Inl f \<Rightarrow> Inl f
      | Inr (r9, w6) \<Rightarrow>
          (case write_config_file env w6 ops of (r10, w7) \<Rightarrow> Inr w7))"

text \<open>
  How \<open>backup\<close> ends before its handles are closed: by the \<open>return\<close> at its
  start, or at the label \<open>cleanup\<close>, with the value of \<open>ret\<close>, the archive handle
  and whether \<open>tar_close\<close> was called on it, the temporary files of the archive, of the
  append log and of the previous index, and the world.
\<close>

datatype run_end =
    Returned int world
  | At_cleanup int "TAR option" bool "string option" "string option" "string option" world



text \<open>
  \<open>backup\<close> from the walk to the label \<open>cleanup\<close>: the walk over the roots, the
  two manifests, and steps 8 to 10. \<open>ret\<close> is 0 as it was initialised.
\<close>

definition backup_steps ::
  "'ctx openssl \<Rightarrow> libarchive \<Rightarrow> backup_env \<Rightarrow> world \<Rightarrow> backup_params \<Rightarrow> string \<Rightarrow> string
   \<Rightarrow> fault + run_end" where
  "backup_steps ssl la env w bp tfp_tar file_out =
     (case foldl (enum_root env) (bp, w) (directories (opt bp)) of (bp1, w1) \<Rightarrow>
      case temp_fclose w1 (tfp_hashes_prev bp1) of (rc, w2) \<Rightarrow>
      case add_checksums env w2 bp1 of (tp2, w3) \<Rightarrow>
      case add_removed env w3 tp2 (tfp_hashes bp1) of (tp3, w4) \<Rightarrow>
      case backup_finish ssl la env w4 tp3 (opt bp1) tfp_tar file_out of
        Inl f \<Rightarrow> Inl f
      | Inr w7 \<Rightarrow>
          Inr (At_cleanup 0 tp3 True (Some tfp_tar) (tfp_hashes bp1) (tfp_hashes_prev bp1) w7))"

text \<open>
  \<open>backup(opt, opt_prev)\<close> up to the label \<open>cleanup\<close>. Until the append log is
  created a failure sets \<open>ret = -1\<close> and jumps there.
\<close>

definition backup_run ::
  "'ctx openssl \<Rightarrow> libarchive \<Rightarrow> backup_env \<Rightarrow> world \<Rightarrow> options \<Rightarrow> options option
   \<Rightarrow> fault + run_end" where
  "backup_run ssl la env w opt0 opt_prev =
     (case (if directories opt0 = [] then add_default_directories env opt0 else (0, opt0)) of
        (r0, opt1) \<Rightarrow>
      if r0 \<noteq> 0 then Inr (Returned (- 1) w)
      else
      case load_prev_hashes ssl la w opt1 opt_prev of
        Inl f \<Rightarrow> Inl f
      | Inr (hashes_prev, w1) \<Rightarrow>
      case get_default_backup_name env opt1 of (r1, file_out) \<Rightarrow>
      if r1 \<noteq> 0 then Inr (At_cleanup (- 1) None False None None hashes_prev w1)
      else
      case temp_fopen w1 ''/var/tmp/tar_XXXXXX'' of
        (None, w2) \<Rightarrow> Inr (At_cleanup (- 1) None False None None hashes_prev w2)
      | (Some tfp_tar, w2) \<Rightarrow>
      case tar_create (Some tfp_tar) (comp_algorithm opt1) (comp_level opt1) of
        None \<Rightarrow> Inr (At_cleanup (- 1) None False (Some tfp_tar) None hashes_prev w2)
      | Some t \<Rightarrow>
      case temp_fopen w2 ''/var/tmp/hashes_XXXXXX'' of
        (None, w3) \<Rightarrow>
          Inr (At_cleanup (- 1) (Some t) False (Some tfp_tar) None hashes_prev w3)
      | (Some hashes, w3) \<Rightarrow>
          backup_steps ssl la env w3
            \<lparr>tp = Some t, tfp_hashes = Some hashes, tfp_hashes_prev = hashes_prev, opt = opt1\<rparr>
            tfp_tar file_out)"

text \<open>\<open>backup(opt, opt_prev)\<close>: the return value and the world after the run.\<close>

definition backup ::
  "'ctx openssl \<Rightarrow> libarchive \<Rightarrow> backup_env \<Rightarrow> world \<Rightarrow> options \<Rightarrow> options option
   \<Rightarrow> fault + (int \<times> world)" where
  "backup ssl la env w opt0 opt_prev =
     (case backup_run ssl la env w opt0 opt_prev of
        Inl f \<Rightarrow> Inl f
      | Inr (Returned r w') \<Rightarrow> Inr (r, w')
      | Inr (At_cleanup r tar tar_closed tfp_tar hashes hashes_prev w') \<Rightarrow>
          backup_cleanup env la w' tar tar_closed tfp_tar hashes hashes_prev r)"

section \<open>Properties of the compressor names\<close>

lemma of_char_zero_iff: "(of_char c :: nat) = 0 \<longleftrightarrow> c = CHR 0x00"
proof -
  have "(of_char c :: nat) = of_char (CHR 0x00) \<longleftrightarrow> c = CHR 0x00"
    by (rule of_char_eq_iff)
  then show ?thesis by simp
qed

lemma strcmp_zero_iff:
  "CHR 0x00 \<notin> set xs \<Longrightarrow> CHR 0x00 \<notin> set ys \<Longrightarrow> strcmp xs ys = 0 \<longleftrightarrow> xs = ys"
proof (induction xs ys rule: strcmp.induct)
  case 1
  then show ?case by simp
next
  case (2 y ys)
  then have "y \<noteq> CHR 0x00" by auto
  then show ?case by (simp add: of_char_zero_iff)
next
  case (3 x xs)
  then have "x \<noteq> CHR 0x00" by auto
  then show ?case by (simp add: of_char_zero_iff)
next
  case (4 x xs y ys)
  then show ?case by auto
qed

lemma lower_char_upper:
  assumes "(65::nat) \<le> of_char a" and "of_char a \<le> (90::nat)"
    and "of_char b = of_char a + (32::nat)"
  shows "lower_char a = lower_char b"
proof -
  have "lower_char a = char_of (of_char a + (32::nat))"
    using assms by (simp add: lower_char_def)
  also have "\<dots> = char_of (of_char b :: nat)" using assms by simp
  also have "\<dots> = b" by simp
  also have "\<dots> = lower_char b" using assms by (simp add: lower_char_def)
  finally show ?thesis .
qed

lemma same_letter_lower:
  assumes "same_letter a b"
  shows "lower_char a = lower_char b"
proof -
  consider "a = b"
    | "(65::nat) \<le> of_char a \<and> of_char a \<le> (90::nat) \<and> of_char b = of_char a + (32::nat)"
    | "(65::nat) \<le> of_char b \<and> of_char b \<le> (90::nat) \<and> of_char a = of_char b + (32::nat)"
    using assms unfolding same_letter_def by blast
  then show ?thesis
  proof cases
    case 1
    then show ?thesis by simp
  next
    case 2
    then show ?thesis by (simp add: lower_char_upper)
  next
    case 3
    then have "lower_char b = lower_char a" by (simp add: lower_char_upper)
    then show ?thesis by simp
  qed
qed

lemma lower_char_not_nul:
  assumes "c \<noteq> CHR 0x00"
  shows "lower_char c \<noteq> CHR 0x00"
proof (cases "(65::nat) \<le> of_char c \<and> of_char c \<le> (90::nat)")
  case True
  then have "(of_char (lower_char c) :: nat) = (of_char c + 32) mod 256"
    by (simp add: lower_char_def)
  also have "\<dots> = of_char c + 32" using True by simp
  finally have "(of_char (lower_char c) :: nat) \<noteq> 0" by simp
  then show ?thesis by (simp add: of_char_zero_iff)
next
  case False
  then show ?thesis using assms by (auto simp add: lower_char_def)
qed

lemma map_lower_same:
  "list_all2 same_letter s t \<Longrightarrow> map lower_char s = map lower_char t"
  by (induction rule: list_all2_induct) (simp_all add: same_letter_lower)

lemma strcmp_nocase_zero_iff:
  assumes "CHR 0x00 \<notin> set s" and "CHR 0x00 \<notin> set n"
  shows "strcmp_nocase True s n = 0 \<longleftrightarrow> map lower_char s = map lower_char n"
proof -
  have nn: "CHR 0x00 \<notin> set (map lower_char zs)" if "CHR 0x00 \<notin> set zs" for zs
    using that
  proof (induction zs)
    case Nil
    then show ?case by simp
  next
    case (Cons a zs)
    then have "a \<noteq> CHR 0x00" by auto
    then have "lower_char a \<noteq> CHR 0x00" by (rule lower_char_not_nul)
    then have "CHR 0x00 \<noteq> lower_char a" by (rule not_sym)
    then show ?case using Cons by simp
  qed
  have "strcmp (map lower_char s) (map lower_char n) = 0 \<longleftrightarrow>
          map lower_char s = map lower_char n"
    using nn[OF assms(1)] nn[OF assms(2)] by (rule strcmp_zero_iff)
  then show ?thesis by (simp add: strcmp_nocase_def)
qed

lemma compressor_names_all:
  "list_all (\<lambda>n. map lower_char n = n \<and> CHR 0x00 \<notin> set n) compressor_names"
  by (simp add: compressor_names_def lower_char_def)

lemma compressor_names_lower:
  assumes "n \<in> set compressor_names"
  shows "map lower_char n = n \<and> CHR 0x00 \<notin> set n"
  using compressor_names_all assms unfolding list_all_iff by (rule bspec)

lemma strcmp_nocase_name:
  assumes "CHR 0x00 \<notin> set s" and "n \<in> set compressor_names"
  shows "strcmp_nocase True s n = 0 \<longleftrightarrow> map lower_char s = n"
proof -
  have "strcmp_nocase True s n = 0 \<longleftrightarrow> map lower_char s = map lower_char n"
    using assms(1) compressor_names_lower[OF assms(2)] by (intro strcmp_nocase_zero_iff) simp_all
  then show ?thesis using compressor_names_lower[OF assms(2)] by simp
qed

lemma byname_unknown:
  assumes nul: "CHR 0x00 \<notin> set name" and "map lower_char name \<notin> set compressor_names"
  shows "get_compressor_byname heap_ok (Some name) = Inr COMPRESSOR_INVALID"
proof -
  have ne: "strcmp_nocase True name n \<noteq> 0" if "n \<in> set compressor_names" for n
    using strcmp_nocase_name[OF nul that] assms(2) that by auto
  have "strcmp_nocase True name ''none'' \<noteq> 0" "strcmp_nocase True name ''off'' \<noteq> 0"
    "strcmp_nocase True name ''gzip'' \<noteq> 0" "strcmp_nocase True name ''gz'' \<noteq> 0"
    "strcmp_nocase True name ''bzip2'' \<noteq> 0" "strcmp_nocase True name ''bz2'' \<noteq> 0"
    "strcmp_nocase True name ''xz'' \<noteq> 0" "strcmp_nocase True name ''lz4'' \<noteq> 0"
    by (rule ne, simp add: compressor_names_def)+
  then show ?thesis
    by (simp add: get_compressor_byname_def heap_ok_def)
qed

lemma byname_nocase:
  assumes "list_all2 same_letter s t"
  shows "get_compressor_byname heap_ok (Some s) = get_compressor_byname heap_ok (Some t)"
  using map_lower_same[OF assms]
  by (simp add: get_compressor_byname_def strcmp_nocase_def)

lemma byname_to_string:
  "c \<noteq> COMPRESSOR_INVALID \<Longrightarrow>
   get_compressor_byname heap_ok (Some (compressor_to_string c)) = Inr c"
  by (cases c) (simp_all add: get_compressor_byname_def strcmp_nocase_def heap_ok_def lower_char_def)

text \<open>
  Claim C10. With a heap on which the allocations of \<open>strcmp_nocase\<close> succeed,
  \<open>get_compressor_byname\<close> (1) gives the same answer for two names that differ only
  in ASCII case, (2) answers \<open>COMPRESSOR_INVALID\<close> for every name whose lower-case
  form is none of the eight names it knows, and (3) maps the printed name of each of
  none, gzip, bzip2, xz and lz4 back to that compressor.
\<close>

theorem get_compressor_byname_resolution:
  "(list_all2 same_letter s t \<longrightarrow>
      get_compressor_byname heap_ok (Some s) = get_compressor_byname heap_ok (Some t)) \<and>
   (CHR 0x00 \<notin> set name \<and> map lower_char name \<notin> set compressor_names \<longrightarrow>
      get_compressor_byname heap_ok (Some name) = Inr COMPRESSOR_INVALID) \<and>
   (c \<in> {COMPRESSOR_NONE, COMPRESSOR_GZIP, COMPRESSOR_BZIP2, COMPRESSOR_XZ, COMPRESSOR_LZ4} \<longrightarrow>
      get_compressor_byname heap_ok (Some (compressor_to_string c)) = Inr c)"
proof (intro conjI impI)
  assume "list_all2 same_letter s t"
  then show "get_compressor_byname heap_ok (Some s) = get_compressor_byname heap_ok (Some t)"
    by (rule byname_nocase)
next
  assume "CHR 0x00 \<notin> set name \<and> map lower_char name \<notin> set compressor_names"
  then show "get_compressor_byname heap_ok (Some name) = Inr COMPRESSOR_INVALID"
    by (simp add: byname_unknown)
next
  assume "c \<in> {COMPRESSOR_NONE, COMPRESSOR_GZIP, COMPRESSOR_BZIP2, COMPRESSOR_XZ, COMPRESSOR_LZ4}"
  then have "c \<noteq> COMPRESSOR_INVALID" by auto
  then show "get_compressor_byname heap_ok (Some (compressor_to_string c)) = Inr c"
    by (rule byname_to_string)
qed

theorem get_compressor_byname_resolution_witness:
  "list_all2 same_letter ''GZip'' ''gzIP'' \<and>
   get_compressor_byname heap_ok (Some ''GZip'') = get_compressor_byname heap_ok (Some ''gzIP'') \<and>
   CHR 0x00 \<notin> set ''zstd'' \<and> map lower_char ''zstd'' \<notin> set compressor_names \<and>
   get_compressor_byname heap_ok (Some ''zstd'') = Inr COMPRESSOR_INVALID \<and>
   COMPRESSOR_XZ \<in> {COMPRESSOR_NONE, COMPRESSOR_GZIP, COMPRESSOR_BZIP2, COMPRESSOR_XZ, COMPRESSOR_LZ4} \<and>
   get_compressor_byname heap_ok (Some (compressor_to_string COMPRESSOR_XZ)) = Inr COMPRESSOR_XZ"
proof -
  have h1: "list_all2 same_letter ''GZip'' ''gzIP''" by code_simp
  have h2: "CHR 0x00 \<notin> set ''zstd'' \<and> map lower_char ''zstd'' \<notin> set compressor_names"
    by code_simp
  have h3: "COMPRESSOR_XZ \<in> {COMPRESSOR_NONE, COMPRESSOR_GZIP, COMPRESSOR_BZIP2, COMPRESSOR_XZ, COMPRESSOR_LZ4}"
    by simp
  note r = get_compressor_byname_resolution [of "''GZip''" "''gzIP''" "''zstd''" COMPRESSOR_XZ]
  from r h1 have c1: "get_compressor_byname heap_ok (Some ''GZip'') = get_compressor_byname heap_ok (Some ''gzIP'')"
    by blast
  from r h2 have c2: "get_compressor_byname heap_ok (Some ''zstd'') = Inr COMPRESSOR_INVALID"
    by blast
  from r h3 have c3: "get_compressor_byname heap_ok (Some (compressor_to_string COMPRESSOR_XZ)) = Inr COMPRESSOR_XZ"
    by blast
  from h1 h2 h3 c1 c2 c3 show ?thesis by blast
qed

section \<open>Properties of the crypt module\<close>

declare salt_loop.simps [simp del]
declare encrypt_loop.simps [simp del]
declare decrypt_loop.simps [simp del]
declare enc_chunks.simps [simp del]
declare dec_chunks.simps [simp del]

lemma salt_loop_from:
  "i \<le> 8 \<Longrightarrow> length dst = 8 \<Longrightarrow> salt_loop src i dst = take i dst @ map src [i..<8]"
proof (induction src i dst rule: salt_loop.induct)
  case (1 src i dst)
  show ?case
  proof (cases "i < 8")
    case True
    have "salt_loop src i dst = salt_loop src (Suc i) (dst[i := src i])"
      using True by (simp add: salt_loop.simps [of src i dst])
    also have "\<dots> = take (Suc i) (dst[i := src i]) @ map src [Suc i..<8]"
      using "1.IH" [OF True] True "1.prems" by simp
    also have "take (Suc i) (dst[i := src i]) = take i dst @ [src i]"
      using True "1.prems" by (simp add: take_Suc_conv_app_nth)
    finally show ?thesis using True by (simp add: upt_conv_Cons)
  next
    case False
    then have i8: "i = 8" using "1.prems" by simp
    have "salt_loop src i dst = dst"
      using False by (simp add: salt_loop.simps [of src i dst])
    then show ?thesis using "1.prems" i8 by simp
  qed
qed

lemma salt_loop_all: "length dst = 8 \<Longrightarrow> salt_loop src 0 dst = map src [0..<8]"
  using salt_loop_from [of 0 dst src] by simp

lemma map_zero_8: "map (\<lambda>i. 0::byte) [0..<8] = replicate 8 0"
  by (simp add: map_replicate_const)

text \<open>
  Claim C9. For a handle whose salt field has its 8 bytes, \<open>crypt_set_salt\<close> with a
  NULL salt returns 0 and sets the 8 salt bytes to zero, and with a non-NULL salt returns
  0 and stores the 8 bytes it points to; the result is the handle with the salt field
  replaced, so every other field is unchanged.
\<close>

theorem crypt_set_salt_frame:
  "length (salt k) = 8 \<longrightarrow>
     crypt_set_salt None (Some k) = (0, Some (k\<lparr>salt := replicate 8 0\<rparr>)) \<and>
     crypt_set_salt (Some s) (Some k) = (0, Some (k\<lparr>salt := map s [0..<8]\<rparr>))"
  by (simp add: crypt_set_salt_def salt_loop_all map_zero_8 del: replicate.simps)

theorem crypt_set_salt_frame_witness:
  "length (salt example_keys) = 8 \<and>
   crypt_set_salt None (Some example_keys) = (0, Some (example_keys\<lparr>salt := [0, 0, 0, 0, 0, 0, 0, 0]\<rparr>)) \<and>
   crypt_set_salt (Some (\<lambda>i. of_nat i + 10)) (Some example_keys) =
     (0, Some (example_keys\<lparr>salt := [10, 11, 12, 13, 14, 15, 16, 17]\<rparr>))"
proof -
  have h: "length (salt example_keys) = 8" by (simp add: example_keys_def)
  have m: "map (\<lambda>i. of_nat i + 10) [0..<8] = [10, 11, 12, 13, 14, 15, 16, 17 :: byte]"
    by (simp add: upt_rec)
  have r: "replicate 8 (0::byte) = [0, 0, 0, 0, 0, 0, 0, 0]"
    by (simp add: numeral_eq_Suc)
  from crypt_set_salt_frame [of example_keys "\<lambda>i. of_nat i + 10"] h
  show ?thesis by (simp only: m r)
qed

subsection \<open>The order of the calls\<close>

lemma fclose_fopen_rb:
  "fopen_rb w p = Some w1 \<Longrightarrow> fclose w1 p = w"
  by (auto simp: fopen_rb_def fclose_def split: option.splits)

lemma cleanup_unopened:
  "crypt_cleanup w None None out (- 1) = (- 1, c_remove w out)"
  by (simp add: crypt_cleanup_def)

lemma cleanup_in_only:
  assumes "fopen_rb w i = Some w1" and "fopen_wb w1 out = None"
  shows "crypt_cleanup w1 (Some i) None out (- 1) = (- 1, c_remove w out)"
  using assms by (simp add: crypt_cleanup_def fclose_fopen_rb)

lemma remove1_two: "remove1 out (remove1 i (out # i # xs)) = xs"
  by simp

lemma cleanup_both:
  assumes "fopen_rb w i = Some w1" and "fopen_wb w1 out = Some w2"
  shows "crypt_cleanup w2 (Some i) (Some out) out (- 1) = (- 1, c_remove w out)"
proof -
  from assms(1) have w1: "w1 = w\<lparr>opened := i # opened w\<rparr>"
    by (auto simp: fopen_rb_def split: option.splits)
  from assms(2) have nu: "out \<notin> unwritable w1"
    and w2: "w2 = w1\<lparr>files := (files w1)(out \<mapsto> []), opened := out # opened w1\<rparr>"
    by (auto simp: fopen_wb_def split: if_splits)
  show ?thesis
    using nu unfolding w2 w1
    by (simp add: crypt_cleanup_def fclose_def c_remove_def)
qed

lemma encrypt_without_keys:
  assumes "\<not> flag_keys_set k"
  shows "crypt_encrypt_ex ssl w (Some i) (Some k) (Some out) = (- 1, c_remove w out)"
proof (cases "fopen_rb w i")
  case None
  then show ?thesis by (simp add: crypt_encrypt_ex_def cleanup_unopened)
next
  case (Some w1)
  show ?thesis
  proof (cases "fopen_wb w1 out")
    case None
    then show ?thesis using Some by (simp add: crypt_encrypt_ex_def cleanup_in_only)
  next
    case (Some w2)
    then show ?thesis using \<open>fopen_rb w i = Some w1\<close> assms
      by (simp add: crypt_encrypt_ex_def cleanup_both)
  qed
qed

lemma decrypt_without_keys:
  assumes "\<not> flag_keys_set k"
  shows "crypt_decrypt_ex ssl w (Some i) (Some k) (Some out) = (- 1, c_remove w out)"
proof (cases "fopen_rb w i")
  case None
  then show ?thesis by (simp add: crypt_decrypt_ex_def cleanup_unopened)
next
  case (Some w1)
  show ?thesis
  proof (cases "fopen_wb w1 out")
    case None
    then show ?thesis using Some by (simp add: crypt_decrypt_ex_def cleanup_in_only)
  next
    case (Some w2)
    then show ?thesis using \<open>fopen_rb w i = Some w1\<close> assms
      by (simp add: crypt_decrypt_ex_def cleanup_both)
  qed
qed

lemma gen_keys_without_cipher:
  "\<not> flag_encryption_set k \<Longrightarrow> crypt_gen_keys ssl w (Some d) n md it (Some k) = (- 1, Some k)"
  by (simp add: crypt_gen_keys_def)

lemma gen_keys_with_cipher:
  assumes "flag_encryption_set k" and "alloc_ok w A_key" and "alloc_ok w A_iv"
    and "EVP_BytesToKey ssl (encryption k) (case md of None \<Rightarrow> EVP_sha256 ssl | Some m \<Rightarrow> m)
           (salt k) (take (nat n) d) it = Some (ky, v)"
  shows "crypt_gen_keys ssl w (Some d) n md it (Some k) =
           (0, Some (k\<lparr>key_length := EVP_CIPHER_key_length ssl (encryption k),
                        iv_length := EVP_CIPHER_iv_length ssl (encryption k),
                        key := Some ky, iv := Some v, flag_keys_set := True\<rparr>))"
  using assms by (simp add: crypt_gen_keys_def Let_def)

lemma gen_salt_flags:
  "crypt_gen_salt w (Some k) = (rc, fk', w') \<Longrightarrow>
     \<exists>k'. fk' = Some k' \<and> flag_encryption_set k' = flag_encryption_set k \<and>
          encryption k' = encryption k"
  by (auto simp: crypt_gen_salt_def crypt_scrub_def split: option.splits)

lemma extract_salt_flags:
  "crypt_extract_salt w p (Some k) = (0, fk') \<Longrightarrow>
     \<exists>k'. fk' = Some k' \<and> flag_encryption_set k' = flag_encryption_set k \<and>
          encryption k' = encryption k \<and> flag_salt_extracted k'"
  by (auto simp: crypt_extract_salt_def split: option.splits if_splits)

lemma do_call_keys_unset:
  "keys_unset (fst st) \<Longrightarrow> keys_unset (fst (do_call ssl c st))"
proof (cases st)
  case (Pair fk w)
  assume u: "keys_unset (fst st)"
  show ?thesis
  proof (cases c)
    case (Call_set_encryption enc)
    then show ?thesis using u Pair
      by (auto simp: keys_unset_def crypt_set_encryption_def split: option.splits)
  next
    case Call_gen_salt
    then show ?thesis using u Pair
      by (auto simp: keys_unset_def crypt_gen_salt_def crypt_scrub_def split: option.splits)
  next
    case (Call_set_salt s)
    then show ?thesis using u Pair
      by (auto simp: keys_unset_def crypt_set_salt_def split: option.splits)
  next
    case (Call_extract_salt p)
    then show ?thesis using u Pair
      by (auto simp: keys_unset_def crypt_extract_salt_def split: option.splits)
  qed
qed

lemma fold_do_call_keys_unset:
  "keys_unset (fst st) \<Longrightarrow> keys_unset (fst (fold (do_call ssl) calls st))"
  by (induction calls arbitrary: st) (simp_all add: do_call_keys_unset)

lemma handle_after_keys_unset:
  "fst (handle_after ssl w calls) = Some k \<Longrightarrow> \<not> flag_keys_set k"
proof -
  assume a: "fst (handle_after ssl w calls) = Some k"
  have "keys_unset (fst (crypt_new w, w))"
    by (simp add: keys_unset_def crypt_new_def zero_keys_def)
  then have "keys_unset (fst (handle_after ssl w calls))"
    unfolding handle_after_def by (rule fold_do_call_keys_unset)
  then show ?thesis using a by (simp add: keys_unset_def)
qed

lemma crypt_new_no_cipher: "crypt_new w = Some k \<Longrightarrow> \<not> flag_encryption_set k"
  by (auto simp: crypt_new_def zero_keys_def split: if_splits)


text \<open>
  Claim C5. (1) \<open>crypt_gen_keys\<close> on a handle whose cipher was not set, as a new
  handle is, returns \<open>-1\<close> and leaves the handle as it was. (2) After
  \<open>crypt_set_encryption\<close> returned 0, and then either \<open>crypt_gen_salt\<close> (whatever
  it returned) or a successful \<open>crypt_extract_salt\<close>, \<open>crypt_gen_keys\<close> returns 0
  and sets the keys, provided its two allocations succeed and \<open>EVP_BytesToKey\<close>
  delivers. (3) \<open>crypt_encrypt_ex\<close> and \<open>crypt_decrypt_ex\<close> on a handle without
  keys, in particular on a new handle after any sequence of the other calls, return
  \<open>-1\<close>, and the world after the call is the world before it with the output path
  removed: nothing was encrypted or decrypted.
\<close>

theorem crypt_keys_call_order:
  "(\<not> flag_encryption_set k \<longrightarrow>
      crypt_gen_keys ssl w (Some d) n md it (Some k) = (- 1, Some k)) \<and>
   (crypt_new w = Some k \<longrightarrow> \<not> flag_encryption_set k) \<and>
   (crypt_set_encryption ssl enc (Some k) = (0, Some k1) \<and>
    (crypt_gen_salt w (Some k1) = (rc, Some k2, w2) \<or>
     crypt_extract_salt w p (Some k1) = (0, Some k2)) \<and>
    alloc_ok w3 A_key \<and> alloc_ok w3 A_iv \<and>
    EVP_BytesToKey ssl (encryption k2) (case md of None \<Rightarrow> EVP_sha256 ssl | Some m \<Rightarrow> m)
      (salt k2) (take (nat n) d) it = Some (ky, v) \<longrightarrow>
      (\<exists>k3. crypt_gen_keys ssl w3 (Some d) n md it (Some k2) = (0, Some k3) \<and>
            flag_keys_set k3 \<and> key k3 = Some ky \<and> iv k3 = Some v)) \<and>
   (\<not> flag_keys_set k \<or> fst (handle_after ssl w calls) = Some k \<longrightarrow>
      crypt_encrypt_ex ssl w4 (Some i) (Some k) (Some out) = (- 1, c_remove w4 out) \<and>
      crypt_decrypt_ex ssl w4 (Some i) (Some k) (Some out) = (- 1, c_remove w4 out))"
proof (intro conjI impI)
  assume "\<not> flag_encryption_set k"
  then show "crypt_gen_keys ssl w (Some d) n md it (Some k) = (- 1, Some k)"
    by (rule gen_keys_without_cipher)
next
  assume "crypt_new w = Some k"
  then show "\<not> flag_encryption_set k" by (rule crypt_new_no_cipher)
next
  assume a: "crypt_set_encryption ssl enc (Some k) = (0, Some k1) \<and>
    (crypt_gen_salt w (Some k1) = (rc, Some k2, w2) \<or>
     crypt_extract_salt w p (Some k1) = (0, Some k2)) \<and>
    alloc_ok w3 A_key \<and> alloc_ok w3 A_iv \<and>
    EVP_BytesToKey ssl (encryption k2) (case md of None \<Rightarrow> EVP_sha256 ssl | Some m \<Rightarrow> m)
      (salt k2) (take (nat n) d) it = Some (ky, v)"
  then have "flag_encryption_set k1"
    by (auto simp: crypt_set_encryption_def split: if_splits option.splits)
  moreover from a have "flag_encryption_set k2 = flag_encryption_set k1"
    using gen_salt_flags [of w k1 rc "Some k2" w2] extract_salt_flags [of w p k1 "Some k2"]
    by auto
  ultimately have "flag_encryption_set k2" by simp
  with a have "crypt_gen_keys ssl w3 (Some d) n md it (Some k2) =
           (0, Some (k2\<lparr>key_length := EVP_CIPHER_key_length ssl (encryption k2),
                        iv_length := EVP_CIPHER_iv_length ssl (encryption k2),
                        key := Some ky, iv := Some v, flag_keys_set := True\<rparr>))"
    by (intro gen_keys_with_cipher) simp_all
  then show "\<exists>k3. crypt_gen_keys ssl w3 (Some d) n md it (Some k2) = (0, Some k3) \<and>
            flag_keys_set k3 \<and> key k3 = Some ky \<and> iv k3 = Some v"
    by simp
next
  assume "\<not> flag_keys_set k \<or> fst (handle_after ssl w calls) = Some k"
  then have nk: "\<not> flag_keys_set k" using handle_after_keys_unset by blast
  then show "crypt_encrypt_ex ssl w4 (Some i) (Some k) (Some out) = (- 1, c_remove w4 out)"
    by (rule encrypt_without_keys)
  from nk show "crypt_decrypt_ex ssl w4 (Some i) (Some k) (Some out) = (- 1, c_remove w4 out)"
    by (rule decrypt_without_keys)
qed

theorem crypt_keys_call_order_witness:
  "\<not> flag_encryption_set zero_keys \<and>
   crypt_gen_keys stream_ssl example_world (Some [1, 2]) 2 None 1 (Some zero_keys) = (- 1, Some zero_keys) \<and>
   crypt_new example_world = Some zero_keys \<and>
   crypt_set_encryption stream_ssl (Some ''stream'') (Some zero_keys) =
     (0, Some (zero_keys\<lparr>encryption := Some ''stream'', flag_encryption_set := True\<rparr>)) \<and>
   crypt_gen_salt example_world
       (Some (zero_keys\<lparr>encryption := Some ''stream'', flag_encryption_set := True\<rparr>)) =
     (0, Some (zero_keys\<lparr>encryption := Some ''stream'', flag_encryption_set := True,
                          salt := [0, 1, 2, 3, 4, 5, 6, 7]\<rparr>), tick example_world) \<and>
   alloc_ok example_world A_key \<and> alloc_ok example_world A_iv \<and>
   EVP_BytesToKey stream_ssl (Some ''stream'') (EVP_sha256 stream_ssl)
       [0, 1, 2, 3, 4, 5, 6, 7] (take (nat 2) [1, 2]) 1 = Some ([31], []) \<and>
   (\<exists>k3. crypt_gen_keys stream_ssl example_world (Some [1, 2]) 2 None 1
            (Some (zero_keys\<lparr>encryption := Some ''stream'', flag_encryption_set := True,
                               salt := [0, 1, 2, 3, 4, 5, 6, 7]\<rparr>)) = (0, Some k3) \<and>
         flag_keys_set k3 \<and> key k3 = Some [31] \<and> iv k3 = Some []) \<and>
   \<not> flag_keys_set zero_keys \<and>
   crypt_encrypt_ex stream_ssl example_world (Some ''/tmp/plain'') (Some zero_keys) (Some ''/tmp/enc'') =
     (- 1, c_remove example_world ''/tmp/enc'') \<and>
   crypt_decrypt_ex stream_ssl example_world (Some ''/tmp/plain'') (Some zero_keys) (Some ''/tmp/enc'') =
     (- 1, c_remove example_world ''/tmp/enc'')"
proof -
  let ?k1 = "zero_keys\<lparr>encryption := Some ''stream'', flag_encryption_set := True\<rparr>"
  let ?k2 = "zero_keys\<lparr>encryption := Some ''stream'', flag_encryption_set := True,
                        salt := [0, 1, 2, 3, 4, 5, 6, 7]\<rparr>"
  have h1: "\<not> flag_encryption_set zero_keys" by (simp add: zero_keys_def)
  have h2: "crypt_new example_world = Some zero_keys"
    by (simp add: crypt_new_def example_world_def)
  have h3: "crypt_set_encryption stream_ssl (Some ''stream'') (Some zero_keys) = (0, Some ?k1)"
    by (simp add: crypt_set_encryption_def zero_keys_def)
  have u8: "[0..<8] = [0, 1, 2, 3, 4, 5, 6, 7]" by (simp add: upt_rec)
  have h4: "crypt_gen_salt example_world (Some ?k1) = (0, Some ?k2, tick example_world)"
    by (simp add: crypt_gen_salt_def crypt_scrub_def example_world_def zero_keys_def u8)
  have h5: "alloc_ok example_world A_key \<and> alloc_ok example_world A_iv"
    by (simp add: example_world_def)
  have h6: "EVP_BytesToKey stream_ssl (encryption ?k2)
              (case None of None \<Rightarrow> EVP_sha256 stream_ssl | Some m \<Rightarrow> m)
              (salt ?k2) (take (nat 2) [1, 2]) 1 = Some ([31], [])"
    by (simp add: stream_ssl_def)
  have h7: "\<not> flag_keys_set zero_keys" by (simp add: zero_keys_def)
  note t = crypt_keys_call_order [of zero_keys stream_ssl example_world "[1, 2]" 2 None 1
      "Some ''stream''" ?k1 0 ?k2 "tick example_world" None example_world "[31]" "[]" "[]"
      example_world "''/tmp/plain''" "''/tmp/enc''"]
  from t h1 have c1: "crypt_gen_keys stream_ssl example_world (Some [1, 2]) 2 None 1 (Some zero_keys)
      = (- 1, Some zero_keys)" by blast
  from t h3 h4 h5 h6 have c3: "\<exists>k3. crypt_gen_keys stream_ssl example_world (Some [1, 2]) 2 None 1
            (Some ?k2) = (0, Some k3) \<and> flag_keys_set k3 \<and> key k3 = Some [31] \<and> iv k3 = Some []"
    by blast
  from t h7 have c4: "crypt_encrypt_ex stream_ssl example_world (Some ''/tmp/plain'') (Some zero_keys) (Some ''/tmp/enc'') =
     (- 1, c_remove example_world ''/tmp/enc'') \<and>
   crypt_decrypt_ex stream_ssl example_world (Some ''/tmp/plain'') (Some zero_keys) (Some ''/tmp/enc'') =
     (- 1, c_remove example_world ''/tmp/enc'')" by blast
  have h6': "EVP_BytesToKey stream_ssl (Some ''stream'') (EVP_sha256 stream_ssl)
       [0, 1, 2, 3, 4, 5, 6, 7] (take (nat 2) [1, 2]) 1 = Some ([31], [])"
    using h6 by (simp add: zero_keys_def)
  from h1 c1 h2 h3 h4 h5 h6' c3 h7 c4 show ?thesis by blast
qed

subsection \<open>Streaming encryption and decryption\<close>

lemma fwrite_files:
  "files w out = Some old \<Longrightarrow> fwrite w out bs = w\<lparr>files := (files w)(out \<mapsto> old @ bs)\<rparr>"
  by (simp add: fwrite_def)

lemma files_upd_triv:
  "files w out = Some old \<Longrightarrow> w\<lparr>files := (files w)(out \<mapsto> old)\<rparr> = w"
  by (simp add: map_upd_triv)

lemma encrypt_loop_Inr:
  "encrypt_loop ssl w out ctx rest n = Inr (ctx', w') \<Longrightarrow> files w out = Some old \<Longrightarrow>
     \<exists>ct. enc_chunks ssl ctx rest = Some (ctx', ct) \<and>
          w' = w\<lparr>files := (files w)(out \<mapsto> old @ ct)\<rparr>"
proof (induction ssl w out ctx rest n arbitrary: old rule: encrypt_loop.induct)
  case (1 ssl w out ctx rest n)
  show ?case
  proof (cases "0 < length (read_file rest BUFFER_LEN)")
    case False
    then have "encrypt_loop ssl w out ctx rest n = Inr (ctx, w)"
      by (simp add: encrypt_loop.simps [of ssl w out ctx rest n])
    moreover have "enc_chunks ssl ctx rest = Some (ctx, [])"
      using False by (simp add: enc_chunks.simps [of ssl ctx rest])
    ultimately have cw: "ctx' = ctx" "w' = w" and ec: "enc_chunks ssl ctx rest = Some (ctx', [])"
      using "1.prems" by simp_all
    have "w' = w\<lparr>files := (files w)(out \<mapsto> old @ [])\<rparr>"
      unfolding cw using files_upd_triv [OF "1.prems"(2)] by (simp only: append_Nil2)
    with ec show ?thesis by blast
  next
    case True
    from "1.prems"(1) True obtain c1 ob where
      up: "EVP_EncryptUpdate ssl ctx (read_file rest BUFFER_LEN) = Some (c1, ob)"
      and nf: "\<not> ferror_out w (Suc n)"
      and rec: "encrypt_loop ssl (fwrite w out ob) out c1 (drop BUFFER_LEN rest) (Suc n) = Inr (ctx', w')"
      by (auto simp: encrypt_loop.simps [of ssl w out ctx rest n] split: option.splits if_splits)
    have fw: "fwrite w out ob = w\<lparr>files := (files w)(out \<mapsto> old @ ob)\<rparr>"
      using "1.prems"(2) by (rule fwrite_files)
    then have fo: "files (fwrite w out ob) out = Some (old @ ob)" by simp
    from "1.IH" [OF True up _ nf rec fo] obtain ct where
      ec: "enc_chunks ssl c1 (drop BUFFER_LEN rest) = Some (ctx', ct)"
      and w': "w' = (fwrite w out ob)\<lparr>files := (files (fwrite w out ob))(out \<mapsto> (old @ ob) @ ct)\<rparr>"
      by blast
    have "enc_chunks ssl ctx rest = Some (ctx', ob @ ct)"
      using True up ec by (simp add: enc_chunks.simps [of ssl ctx rest])
    moreover have "w' = w\<lparr>files := (files w)(out \<mapsto> old @ (ob @ ct))\<rparr>"
      unfolding w' fw by simp
    ultimately show ?thesis by blast
  qed
qed

lemma encrypt_loop_ok:
  "enc_chunks ssl ctx rest = Some (ctx', ct) \<Longrightarrow> files w out = Some old \<Longrightarrow>
   (\<forall>m. \<not> ferror_out w m) \<Longrightarrow>
     encrypt_loop ssl w out ctx rest n = Inr (ctx', w\<lparr>files := (files w)(out \<mapsto> old @ ct)\<rparr>)"
proof (induction ssl w out ctx rest n arbitrary: old ct rule: encrypt_loop.induct)
  case (1 ssl w out ctx rest n)
  show ?case
  proof (cases "0 < length (read_file rest BUFFER_LEN)")
    case False
    then have "enc_chunks ssl ctx rest = Some (ctx, [])"
      by (simp add: enc_chunks.simps [of ssl ctx rest])
    with "1.prems"(1) have e: "ctx' = ctx" "ct = []" by simp_all
    have "encrypt_loop ssl w out ctx rest n = Inr (ctx, w)"
      using False by (simp add: encrypt_loop.simps [of ssl w out ctx rest n])
    moreover have "w\<lparr>files := (files w)(out \<mapsto> old @ [])\<rparr> = w"
      using files_upd_triv [OF "1.prems"(2)] by (simp only: append_Nil2)
    ultimately show ?thesis unfolding e by (simp only:)
  next
    case True
    from "1.prems"(1) True obtain c1 ob ct1 where
      up: "EVP_EncryptUpdate ssl ctx (read_file rest BUFFER_LEN) = Some (c1, ob)"
      and ec: "enc_chunks ssl c1 (drop BUFFER_LEN rest) = Some (ctx', ct1)"
      and ct: "ct = ob @ ct1"
      by (auto simp: enc_chunks.simps [of ssl ctx rest] split: option.splits)
    have nf: "\<not> ferror_out w (Suc n)" using "1.prems"(3) by blast
    have fw: "fwrite w out ob = w\<lparr>files := (files w)(out \<mapsto> old @ ob)\<rparr>"
      using "1.prems"(2) by (rule fwrite_files)
    then have fo: "files (fwrite w out ob) out = Some (old @ ob)" by simp
    have nf': "\<forall>m. \<not> ferror_out (fwrite w out ob) m"
      unfolding fw using "1.prems"(3) by simp
    have "encrypt_loop ssl w out ctx rest n =
            encrypt_loop ssl (fwrite w out ob) out c1 (drop BUFFER_LEN rest) (Suc n)"
      using True up nf by (simp add: encrypt_loop.simps [of ssl w out ctx rest n])
    also have "\<dots> = Inr (ctx', (fwrite w out ob)\<lparr>files := (files (fwrite w out ob))(out \<mapsto> (old @ ob) @ ct1)\<rparr>)"
      by (rule "1.IH" [OF True up _ nf ec fo nf']) simp
    also have "(fwrite w out ob)\<lparr>files := (files (fwrite w out ob))(out \<mapsto> (old @ ob) @ ct1)\<rparr>
             = w\<lparr>files := (files w)(out \<mapsto> old @ ct)\<rparr>"
      unfolding fw ct by simp
    finally show ?thesis .
  qed
qed

lemma decrypt_loop_eq:
  "files w out = Some old \<Longrightarrow>
     (case dec_chunks ssl ctx rest of
        None \<Rightarrow> \<exists>bs. decrypt_loop ssl w out ctx rest = Inl (w\<lparr>files := (files w)(out \<mapsto> bs)\<rparr>)
      | Some (ctx', pt) \<Rightarrow>
          decrypt_loop ssl w out ctx rest = Inr (ctx', w\<lparr>files := (files w)(out \<mapsto> old @ pt)\<rparr>))"
proof (induction ssl w out ctx rest arbitrary: old rule: decrypt_loop.induct)
  case (1 ssl w out ctx rest)
  have triv: "w\<lparr>files := (files w)(out \<mapsto> old)\<rparr> = w"
    using "1.prems" by (rule files_upd_triv)
  show ?case
  proof (cases "0 < length (read_file rest BUFFER_LEN)")
    case False
    then have d: "dec_chunks ssl ctx rest = Some (ctx, [])"
      by (simp add: dec_chunks.simps [of ssl ctx rest])
    have "decrypt_loop ssl w out ctx rest = Inr (ctx, w)"
      using False by (simp add: decrypt_loop.simps [of ssl w out ctx rest])
    then have "decrypt_loop ssl w out ctx rest = Inr (ctx, w\<lparr>files := (files w)(out \<mapsto> old @ [])\<rparr>)"
      using triv by (simp only: append_Nil2)
    then show ?thesis unfolding d by (simp only: option.case prod.case)
  next
    case True
    show ?thesis
    proof (cases "EVP_DecryptUpdate ssl ctx (read_file rest BUFFER_LEN)")
      case None
      then have d: "dec_chunks ssl ctx rest = None"
        using True by (simp add: dec_chunks.simps [of ssl ctx rest])
      have "decrypt_loop ssl w out ctx rest = Inl w"
        using True None by (simp add: decrypt_loop.simps [of ssl w out ctx rest])
      then have "decrypt_loop ssl w out ctx rest = Inl (w\<lparr>files := (files w)(out \<mapsto> old)\<rparr>)"
        using triv by (simp only:)
      then have "\<exists>bs. decrypt_loop ssl w out ctx rest = Inl (w\<lparr>files := (files w)(out \<mapsto> bs)\<rparr>)"
        by (rule exI)
      then show ?thesis unfolding d by (simp only: option.case)
    next
      case (Some p)
      obtain c1 ob where p: "p = (c1, ob)" by (cases p)
      have up: "EVP_DecryptUpdate ssl ctx (read_file rest BUFFER_LEN) = Some (c1, ob)"
        using Some p by (simp only:)
      have fw: "fwrite w out ob = w\<lparr>files := (files w)(out \<mapsto> old @ ob)\<rparr>"
        using "1.prems" by (rule fwrite_files)
      have fo: "files (fwrite w out ob) out = Some (old @ ob)" unfolding fw by simp
      have step: "decrypt_loop ssl w out ctx rest =
            decrypt_loop ssl (fwrite w out ob) out c1 (drop BUFFER_LEN rest)"
        using True up by (simp add: decrypt_loop.simps [of ssl w out ctx rest])
      have ih: "(case dec_chunks ssl c1 (drop BUFFER_LEN rest) of
          None \<Rightarrow> \<exists>bs. decrypt_loop ssl (fwrite w out ob) out c1 (drop BUFFER_LEN rest) =
                  Inl ((fwrite w out ob)\<lparr>files := (files (fwrite w out ob))(out \<mapsto> bs)\<rparr>)
        | Some (ctx', pt) \<Rightarrow>
            decrypt_loop ssl (fwrite w out ob) out c1 (drop BUFFER_LEN rest) =
              Inr (ctx', (fwrite w out ob)\<lparr>files := (files (fwrite w out ob))(out \<mapsto> (old @ ob) @ pt)\<rparr>))"
        by (rule "1.IH" [OF True up _ fo]) simp
      have upd2: "(fwrite w out ob)\<lparr>files := (files (fwrite w out ob))(out \<mapsto> bs)\<rparr>
                  = w\<lparr>files := (files w)(out \<mapsto> bs)\<rparr>" for bs
        unfolding fw by simp
      show ?thesis
      proof (cases "dec_chunks ssl c1 (drop BUFFER_LEN rest)")
        case None
        then have d: "dec_chunks ssl ctx rest = None"
          using True up by (simp add: dec_chunks.simps [of ssl ctx rest])
        from ih have "\<exists>bs. decrypt_loop ssl w out ctx rest = Inl (w\<lparr>files := (files w)(out \<mapsto> bs)\<rparr>)"
          unfolding None step upd2 by (simp only: option.case)
        then show ?thesis unfolding d by (simp only: option.case)
      next
        case (Some q)
        obtain c2 pt where q: "q = (c2, pt)" by (cases q)
        have d: "dec_chunks ssl ctx rest = Some (c2, ob @ pt)"
          using True up Some q by (simp add: dec_chunks.simps [of ssl ctx rest])
        from ih have "decrypt_loop ssl w out ctx rest = Inr (c2, w\<lparr>files := (files w)(out \<mapsto> (old @ ob) @ pt)\<rparr>)"
          unfolding Some q step upd2 by (simp only: option.case prod.case)
        then show ?thesis unfolding d by (simp only: option.case prod.case append_assoc)
      qed
    qed
  qed
qed

lemma crypt_encrypt_ex_ok:
  assumes src: "files w i = Some data" and ne: "i \<noteq> out" and wr: "out \<notin> unwritable w"
    and ks: "flag_keys_set k" and nf: "\<forall>m. \<not> ferror_out w m"
    and ab: "alloc_ok w A_outbuffer" and ac: "alloc_ok w A_ctx"
    and ev: "evp_encrypt ssl (encryption k) (key k) (iv k) data = Some ct"
  shows "crypt_encrypt_ex ssl w (Some i) (Some k) (Some out) =
           (0, w\<lparr>files := (files w)(out \<mapsto> salt_prefix @ take 8 (salt k) @ ct)\<rparr>)"
proof -
  from ev obtain ctx ctx' body fin where
    init: "EVP_EncryptInit_ex ssl (encryption k) (key k) (iv k) = Some ctx"
    and ch: "enc_chunks ssl ctx data = Some (ctx', body)"
    and fi: "EVP_EncryptFinal_ex ssl ctx' = Some fin"
    and ct: "ct = body @ fin"
    by (auto simp: evp_encrypt_def split: option.splits)
  let ?w1 = "w\<lparr>opened := i # opened w\<rparr>"
  let ?w2 = "w\<lparr>files := (files w)(out \<mapsto> []), opened := out # i # opened w\<rparr>"
  let ?w4 = "w\<lparr>files := (files w)(out \<mapsto> salt_prefix @ take 8 (salt k)), opened := out # i # opened w\<rparr>"
  let ?w5 = "w\<lparr>files := (files w)(out \<mapsto> (salt_prefix @ take 8 (salt k)) @ body), opened := out # i # opened w\<rparr>"
  have o1: "fopen_rb w i = Some ?w1" using src by (simp add: fopen_rb_def)
  have o2: "fopen_wb ?w1 out = Some ?w2" using wr by (simp add: fopen_wb_def)
  have f3: "fwrite (fwrite ?w2 out salt_prefix) out (take 8 (salt k)) = ?w4"
    by (simp add: fwrite_def)
  have f3': "ferror_out (fwrite ?w2 out salt_prefix) 0 = False"
    using nf by (simp add: fwrite_def)
  have in2: "files ?w2 i = Some data" using src ne by simp
  have l: "encrypt_loop ssl ?w4 out ctx data 0 = Inr (ctx', ?w4\<lparr>files := (files ?w4)(out \<mapsto> (salt_prefix @ take 8 (salt k)) @ body)\<rparr>)"
    by (rule encrypt_loop_ok [OF ch]) (use nf in simp_all)
  then have l': "encrypt_loop ssl ?w4 out ctx data 0 = Inr (ctx', ?w5)" by simp
  have f5: "fwrite ?w5 out fin = w\<lparr>files := (files w)(out \<mapsto> salt_prefix @ take 8 (salt k) @ ct), opened := out # i # opened w\<rparr>"
    by (simp add: fwrite_def ct)
  have cl: "crypt_cleanup (fwrite ?w5 out fin) (Some i) (Some out) out 0
      = (0, w\<lparr>files := (files w)(out \<mapsto> salt_prefix @ take 8 (salt k) @ ct)\<rparr>)"
    unfolding f5 using ne by (simp add: crypt_cleanup_def fclose_def)
  have a4: "alloc_ok ?w4 A_outbuffer" "alloc_ok ?w4 A_ctx" using ab ac by simp_all
  show ?thesis
    unfolding crypt_encrypt_ex_def
    by (simp only: option.case o1 o2 ks f3 f3' Let_def if_False if_True not_True_eq_False a4
         init in2 l' sum.case prod.case fi cl)
qed

lemma cleanup_fst: "fst (crypt_cleanup w a b out r) = r"
  by (simp add: crypt_cleanup_def Let_def)

lemma cleanup_neg: "crypt_cleanup w a b out (- 1) \<noteq> (0, w')"
  using cleanup_fst [of w a b out "- 1"] by auto

lemma crypt_encrypt_ex_zero:
  assumes z: "crypt_encrypt_ex ssl w (Some i) (Some k) (Some out) = (0, w')"
  shows "\<exists>data ct. files w i = Some data \<and>
           files w' out = Some (salt_prefix @ take 8 (salt k) @ ct) \<and>
           (if alloc_ok w A_ctx
            then evp_encrypt ssl (encryption k) (key k) (iv k) (if i = out then [] else data) = Some ct
            else ct = [])"
proof -
  obtain data where src: "files w i = Some data"
    using z by (cases "files w i") (simp_all add: crypt_encrypt_ex_def fopen_rb_def cleanup_neg)
  let ?w1 = "w\<lparr>opened := i # opened w\<rparr>"
  let ?w2 = "w\<lparr>files := (files w)(out \<mapsto> []), opened := out # i # opened w\<rparr>"
  let ?w4 = "w\<lparr>files := (files w)(out \<mapsto> salt_prefix @ take 8 (salt k)), opened := out # i # opened w\<rparr>"
  have o1: "fopen_rb w i = Some ?w1" using src by (simp add: fopen_rb_def)
  have wr: "out \<notin> unwritable w"
  proof
    assume "out \<in> unwritable w"
    then have "crypt_encrypt_ex ssl w (Some i) (Some k) (Some out) =
        crypt_cleanup ?w1 (Some i) None out (- 1)"
      by (simp add: crypt_encrypt_ex_def o1 fopen_wb_def)
    with z show False by (simp add: cleanup_neg)
  qed
  have o2: "fopen_wb ?w1 out = Some ?w2" using wr by (simp add: fopen_wb_def)
  have ks: "flag_keys_set k"
  proof (rule ccontr)
    assume "\<not> flag_keys_set k"
    then have "crypt_encrypt_ex ssl w (Some i) (Some k) (Some out) =
        crypt_cleanup ?w2 (Some i) (Some out) out (- 1)"
      by (simp add: crypt_encrypt_ex_def o1 o2)
    with z show False by (simp add: cleanup_neg)
  qed
  have f3: "fwrite (fwrite ?w2 out salt_prefix) out (take 8 (salt k)) = ?w4"
    by (simp add: fwrite_def)
  have fe: "ferror_out (fwrite ?w2 out salt_prefix) 0 = ferror_out w 0"
    by (simp add: fwrite_def)
  have nf0: "\<not> ferror_out w 0"
  proof
    assume "ferror_out w 0"
    then have "crypt_encrypt_ex ssl w (Some i) (Some k) (Some out) =
        crypt_cleanup (fwrite ?w2 out salt_prefix) (Some i) (Some out) out (- 1)"
      by (simp add: crypt_encrypt_ex_def o1 o2 ks fe Let_def)
    with z show False by (simp add: cleanup_neg)
  qed
  have a4: "alloc_ok ?w4 = alloc_ok w" by simp
  have ab: "alloc_ok w A_outbuffer"
  proof (rule ccontr)
    assume "\<not> alloc_ok w A_outbuffer"
    then have "crypt_encrypt_ex ssl w (Some i) (Some k) (Some out) =
        crypt_cleanup ?w4 (Some i) (Some out) out (- 1)"
      unfolding crypt_encrypt_ex_def
      by (simp only: option.case o1 o2 ks f3 fe nf0 Let_def if_False if_True not_True_eq_False
          not_False_eq_True a4)
    with z show False by (simp add: cleanup_neg)
  qed
  have in2: "files ?w2 i = Some (if i = out then [] else data)" using src by simp
  have def: "crypt_encrypt_ex ssl w (Some i) (Some k) (Some out) =
      (if \<not> alloc_ok w A_ctx then crypt_cleanup ?w4 (Some i) (Some out) out 0
       else
         (case EVP_EncryptInit_ex ssl (encryption k) (key k) (iv k) of
            None \<Rightarrow> crypt_cleanup ?w4 (Some i) (Some out) out (- 1)
          | Some ctx \<Rightarrow>
              (case encrypt_loop ssl ?w4 out ctx (if i = out then [] else data) 0 of
                 Inl w5 \<Rightarrow> crypt_cleanup w5 (Some i) (Some out) out (- 1)
               | Inr (ctx', w5) \<Rightarrow>
                   (case EVP_EncryptFinal_ex ssl ctx' of
                      None \<Rightarrow> crypt_cleanup w5 (Some i) (Some out) out (- 1)
                    | Some outbuffer \<Rightarrow>
                        crypt_cleanup (fwrite w5 out outbuffer) (Some i) (Some out) out 0))))"
    unfolding crypt_encrypt_ex_def
    by (simp only: option.case o1 o2 ks f3 fe nf0 Let_def if_False if_True not_True_eq_False
          not_False_eq_True a4 ab in2)
  show ?thesis
  proof (cases "alloc_ok w A_ctx")
    case False
    then have "w' = snd (crypt_cleanup ?w4 (Some i) (Some out) out 0)"
      using z unfolding def by simp
    then have "files w' out = Some (salt_prefix @ take 8 (salt k) @ [])"
      by (simp add: crypt_cleanup_def fclose_def)
    then show ?thesis using src False by auto
  next
    case True
    from z True obtain ctx where
      init: "EVP_EncryptInit_ex ssl (encryption k) (key k) (iv k) = Some ctx"
      unfolding def by (cases "EVP_EncryptInit_ex ssl (encryption k) (key k) (iv k)")
        (simp_all add: cleanup_neg)
    from z True init obtain ctx' w5 where
      lp: "encrypt_loop ssl ?w4 out ctx (if i = out then [] else data) 0 = Inr (ctx', w5)"
      unfolding def
      by (cases "encrypt_loop ssl ?w4 out ctx (if i = out then [] else data) 0")
        (auto simp add: cleanup_neg)
    from z True init lp obtain fin where
      fi: "EVP_EncryptFinal_ex ssl ctx' = Some fin"
      unfolding def by (cases "EVP_EncryptFinal_ex ssl ctx'") (simp_all add: cleanup_neg)
    have fo: "files ?w4 out = Some (salt_prefix @ take 8 (salt k))" by simp
    from encrypt_loop_Inr [OF lp fo] obtain body where
      ch: "enc_chunks ssl ctx (if i = out then [] else data) = Some (ctx', body)"
      and w5: "w5 = ?w4\<lparr>files := (files ?w4)(out \<mapsto> (salt_prefix @ take 8 (salt k)) @ body)\<rparr>"
      by blast
    have "w' = snd (crypt_cleanup (fwrite w5 out fin) (Some i) (Some out) out 0)"
      using z True init lp fi unfolding def by simp
    then have "files w' out = Some (salt_prefix @ take 8 (salt k) @ body @ fin)"
      unfolding w5 by (simp add: crypt_cleanup_def fclose_def fwrite_def)
    moreover have "evp_encrypt ssl (encryption k) (key k) (iv k) (if i = out then [] else data)
        = Some (body @ fin)"
      using init ch fi by (simp add: evp_encrypt_def)
    ultimately show ?thesis using src True by auto
  qed
qed

lemma salt_prefix_bytes: "salt_prefix = [0x53, 0x61, 0x6C, 0x74, 0x65, 0x64, 0x5F, 0x5F]"
  by (simp add: salt_prefix_def)

lemma stream_ssl_simps:
  "EVP_enc_null stream_ssl = ''NULL''"
  "EVP_sha256 stream_ssl = ''SHA256''"
  "EVP_CIPHER_key_length stream_ssl c = 1"
  "EVP_CIPHER_iv_length stream_ssl c = 0"
  "EVP_BytesToKey stream_ssl c md s d n = Some ([sum_list (s @ d)], [])"
  "EVP_EncryptInit_ex stream_ssl c (Some [b]) v = Some b"
  "EVP_EncryptUpdate stream_ssl ctx bs = Some (ctx, map (\<lambda>b. b + ctx) bs)"
  "EVP_EncryptFinal_ex stream_ssl ctx = Some []"
  "EVP_DecryptInit_ex stream_ssl c (Some [b]) v = Some b"
  "EVP_DecryptUpdate stream_ssl ctx bs = Some (ctx, map (\<lambda>b. b - ctx) bs)"
  "EVP_DecryptFinal_ex stream_ssl ctx = Some []"
  by (simp_all add: stream_ssl_def)

lemma enc_chunks_example: "enc_chunks stream_ssl 7 [1, 2, 3] = Some (7, [8, 9, 10])"
  by (simp add: enc_chunks.simps [of _ _ "[1, 2, 3]"] enc_chunks.simps [of _ _ "[]"]
      read_file_def BUFFER_LEN_def stream_ssl_simps)

lemma evp_encrypt_example:
  "evp_encrypt stream_ssl (Some ''stream'') (Some [7]) (Some []) [1, 2, 3] = Some [8, 9, 10]"
  by (simp add: evp_encrypt_def enc_chunks_example stream_ssl_simps)


lemma length_salt_prefix: "length salt_prefix = 8"
  by (simp add: salt_prefix_def)

lemma map_nth_prefix: "length s = n \<Longrightarrow> map (\<lambda>i. (s @ t) ! i) [0..<n] = s"
  by (auto simp: list_eq_iff_nth_eq nth_append)

lemma crypt_extract_salt_ok:
  assumes f: "files w enc = Some (salt_prefix @ s @ ct)" and ls: "length s = 8"
    and lk: "length (salt k) = 8"
  shows "crypt_extract_salt w (Some enc) (Some k) =
           (0, Some (k\<lparr>salt := s, flag_salt_extracted := True\<rparr>))"
proof -
  have t8: "take 8 (salt_prefix @ s @ ct) = salt_prefix"
    using length_salt_prefix by simp
  have d8: "drop 8 (salt_prefix @ s @ ct) = s @ ct"
    using length_salt_prefix by simp
  have t8': "take 8 (s @ ct) = s" using ls by simp
  have sl: "salt_loop (\<lambda>i. (s @ ct) ! i) 0 (salt k) = s"
    using salt_loop_all [OF lk, of "\<lambda>i. (s @ ct) ! i"] map_nth_prefix [OF ls, of ct] by simp
  show ?thesis
    unfolding crypt_extract_salt_def
    by (simp only: option.case f t8 d8 t8' sl length_salt_prefix ls if_False simp_thms)
qed

lemma crypt_decrypt_ex_eq:
  assumes src: "files w i = Some bs" and ne: "i \<noteq> out" and wr: "out \<notin> unwritable w"
    and ks: "flag_keys_set k" and se: "flag_salt_extracted k"
    and ab: "alloc_ok w A_outbuffer" and ac: "alloc_ok w A_ctx"
  shows "crypt_decrypt_ex ssl w (Some i) (Some k) (Some out) =
           (case evp_decrypt ssl (encryption k) (key k) (iv k) (drop 16 bs) of
              None \<Rightarrow> (- 1, w\<lparr>files := (files w)(out := None)\<rparr>)
            | Some pt \<Rightarrow> (0, w\<lparr>files := (files w)(out \<mapsto> pt)\<rparr>))"
proof -
  let ?w1 = "w\<lparr>opened := i # opened w\<rparr>"
  let ?w2 = "w\<lparr>files := (files w)(out \<mapsto> []), opened := out # i # opened w\<rparr>"
  have o1: "fopen_rb w i = Some ?w1" using src by (simp add: fopen_rb_def)
  have o2: "fopen_wb ?w1 out = Some ?w2" using wr by (simp add: fopen_wb_def)
  have a2: "alloc_ok ?w2 A_outbuffer" "alloc_ok ?w2 A_ctx" using ab ac by simp_all
  have in2: "files ?w2 i = Some bs" using src ne by simp
  have fo: "files ?w2 out = Some []" by simp
  have fail: "crypt_cleanup (?w2\<lparr>files := (files ?w2)(out \<mapsto> xs)\<rparr>) (Some i) (Some out) out (- 1)
      = (- 1, w\<lparr>files := (files w)(out := None)\<rparr>)" for xs
    using wr ne by (simp add: crypt_cleanup_def fclose_def c_remove_def)
  have fail0: "crypt_cleanup ?w2 (Some i) (Some out) out (- 1)
      = (- 1, w\<lparr>files := (files w)(out := None)\<rparr>)"
    using wr ne by (simp add: crypt_cleanup_def fclose_def c_remove_def)
  have def: "crypt_decrypt_ex ssl w (Some i) (Some k) (Some out) =
      (case EVP_DecryptInit_ex ssl (encryption k) (key k) (iv k) of
         None \<Rightarrow> crypt_cleanup ?w2 (Some i) (Some out) out (- 1)
       | Some ctx \<Rightarrow>
           (case decrypt_loop ssl ?w2 out ctx (drop (8 + 8) bs) of
              Inl w5 \<Rightarrow> crypt_cleanup w5 (Some i) (Some out) out (- 1)
            | Inr (ctx', w5) \<Rightarrow>
                (case EVP_DecryptFinal_ex ssl ctx' of
                   None \<Rightarrow> crypt_cleanup w5 (Some i) (Some out) out (- 1)
                 | Some outbuffer \<Rightarrow>
                     crypt_cleanup (fwrite w5 out outbuffer) (Some i) (Some out) out 0)))"
    unfolding crypt_decrypt_ex_def
    by (simp only: option.case o1 o2 ks se a2 in2 if_False not_True_eq_False)
  have e16: "(8::nat) + 8 = 16" by simp
  show ?thesis
  proof (cases "EVP_DecryptInit_ex ssl (encryption k) (key k) (iv k)")
    case None
    then show ?thesis unfolding def by (simp add: evp_decrypt_def fail0)
  next
    case (Some ctx)
    note lp = decrypt_loop_eq [OF fo, of ssl ctx "drop 16 bs"]
    show ?thesis
    proof (cases "dec_chunks ssl ctx (drop 16 bs)")
      case None
      with lp obtain xs where
        "decrypt_loop ssl ?w2 out ctx (drop 16 bs) = Inl (?w2\<lparr>files := (files ?w2)(out \<mapsto> xs)\<rparr>)"
        by auto
      then show ?thesis unfolding def e16 using Some None
        by (simp only: option.case sum.case fail evp_decrypt_def)
    next
      case (Some q)
      obtain c2 pt where q: "q = (c2, pt)" by (cases q)
      from lp Some q have l2:
        "decrypt_loop ssl ?w2 out ctx (drop 16 bs) = Inr (c2, ?w2\<lparr>files := (files ?w2)(out \<mapsto> [] @ pt)\<rparr>)"
        by simp
      show ?thesis
      proof (cases "EVP_DecryptFinal_ex ssl c2")
        case None
        then show ?thesis unfolding def e16 using \<open>EVP_DecryptInit_ex ssl (encryption k) (key k) (iv k) = Some ctx\<close> Some q l2
          by (simp only: option.case sum.case prod.case fail evp_decrypt_def)
      next
        case (Some fin)
        have "crypt_cleanup (fwrite (?w2\<lparr>files := (files ?w2)(out \<mapsto> [] @ pt)\<rparr>) out fin) (Some i) (Some out) out 0
           = (0, w\<lparr>files := (files w)(out \<mapsto> pt @ fin)\<rparr>)"
          using ne by (simp add: crypt_cleanup_def fclose_def fwrite_def)
        then show ?thesis unfolding def e16 using \<open>EVP_DecryptInit_ex ssl (encryption k) (key k) (iv k) = Some ctx\<close>
            \<open>dec_chunks ssl ctx (drop 16 bs) = Some q\<close> q l2 Some
          by (simp only: option.case sum.case prod.case evp_decrypt_def)
      qed
    qed
  qed
qed

lemma etd_result:
  assumes src: "files w src = Some data" and ne1: "src \<noteq> enc" and ne2: "enc \<noteq> dst"
    and wr1: "enc \<notin> unwritable w" and wr2: "dst \<notin> unwritable w"
    and al: "\<forall>a. alloc_ok w a" and nf: "\<forall>m. \<not> ferror_out w m"
    and rnd: "rand_src w (ticks w) = Some r"
    and k1: "EVP_BytesToKey ssl (Some c) (EVP_sha256 ssl) (map r [0..<8]) pw1 1 = Some (ky1, v1)"
    and k2: "EVP_BytesToKey ssl (Some c) (EVP_sha256 ssl) (map r [0..<8]) pw2 1 = Some (ky2, v2)"
    and ev: "evp_encrypt ssl (Some c) (Some ky1) (Some v1) data = Some ct"
  shows "\<exists>w'. encrypt_then_decrypt ssl w (Some c) pw1 pw2 src enc dst =
            (Some 0,
             Some (if evp_decrypt ssl (Some c) (Some ky2) (Some v2) ct = None then - 1 else 0),
             w') \<and>
          files w' enc = Some (salt_prefix @ map r [0..<8] @ ct) \<and>
          files w' dst = evp_decrypt ssl (Some c) (Some ky2) (Some v2) ct"
proof -
  let ?s = "map r [0..<8]"
  let ?k1 = "zero_keys\<lparr>encryption := Some c, flag_encryption_set := True\<rparr>"
  let ?k2 = "?k1\<lparr>salt := ?s\<rparr>"
  let ?k3 = "?k2\<lparr>key_length := EVP_CIPHER_key_length ssl (encryption ?k2),
                 iv_length := EVP_CIPHER_iv_length ssl (encryption ?k2),
                 key := Some ky1, iv := Some v1, flag_keys_set := True\<rparr>"
  let ?wa = "tick w"
  let ?wb = "?wa\<lparr>files := (files ?wa)(enc \<mapsto> salt_prefix @ take 8 (salt ?k3) @ ct)\<rparr>"
  let ?k6 = "?k1\<lparr>salt := ?s, flag_salt_extracted := True\<rparr>"
  let ?k7 = "?k6\<lparr>key_length := EVP_CIPHER_key_length ssl (encryption ?k6),
                 iv_length := EVP_CIPHER_iv_length ssl (encryption ?k6),
                 key := Some ky2, iv := Some v2, flag_keys_set := True\<rparr>"
  have n1: "crypt_new w = Some zero_keys" using al by (simp add: crypt_new_def)
  have n2: "crypt_new ?wb = Some zero_keys" using al by (simp add: crypt_new_def tick_def)
  have s1: "crypt_set_encryption ssl (Some c) (Some zero_keys) = (0, Some ?k1)"
    by (simp add: crypt_set_encryption_def zero_keys_def)
  have s2: "crypt_gen_salt w (Some ?k1) = (0, Some ?k2, ?wa)"
    using rnd by (simp add: crypt_gen_salt_def crypt_scrub_def zero_keys_def)
  have tk: "take (nat (int (length pw))) pw = pw" for pw :: "byte list" by simp
  have s3: "crypt_gen_keys ssl ?wa (Some pw1) (int (length pw1)) None 1 (Some ?k2) = (0, Some ?k3)"
    by (rule gen_keys_with_cipher) (use al k1 in \<open>simp_all add: tick_def\<close>)
  have s4: "crypt_encrypt_ex ssl ?wa (Some src) (Some ?k3) (Some enc) = (0, ?wb)"
    by (rule crypt_encrypt_ex_ok [where data = data])
       (use src ne1 wr1 al nf ev in \<open>simp_all add: tick_def\<close>)
  have fb: "files ?wb enc = Some (salt_prefix @ ?s @ ct)" by simp
  have s6: "crypt_extract_salt ?wb (Some enc) (Some ?k1) = (0, Some ?k6)"
    by (rule crypt_extract_salt_ok [OF fb]) (simp_all add: zero_keys_def)
  have s7: "crypt_gen_keys ssl ?wb (Some pw2) (int (length pw2)) None 1 (Some ?k6) = (0, Some ?k7)"
    by (rule gen_keys_with_cipher) (use al k2 in \<open>simp_all add: tick_def\<close>)
  have d16: "drop 16 (salt_prefix @ ?s @ ct) = ct"
    using length_salt_prefix by simp
  have s8: "crypt_decrypt_ex ssl ?wb (Some enc) (Some ?k7) (Some dst) =
      (case evp_decrypt ssl (encryption ?k7) (key ?k7) (iv ?k7) (drop 16 (salt_prefix @ ?s @ ct)) of
         None \<Rightarrow> (- 1, ?wb\<lparr>files := (files ?wb)(dst := None)\<rparr>)
       | Some pt \<Rightarrow> (0, ?wb\<lparr>files := (files ?wb)(dst \<mapsto> pt)\<rparr>))"
    by (rule crypt_decrypt_ex_eq [OF fb ne2]) (use wr2 al in \<open>simp_all add: tick_def\<close>)
  have s8': "crypt_decrypt_ex ssl ?wb (Some enc) (Some ?k7) (Some dst) =
      (case evp_decrypt ssl (Some c) (Some ky2) (Some v2) ct of
         None \<Rightarrow> (- 1, ?wb\<lparr>files := (files ?wb)(dst := None)\<rparr>)
       | Some pt \<Rightarrow> (0, ?wb\<lparr>files := (files ?wb)(dst \<mapsto> pt)\<rparr>))"
    unfolding s8 d16 by simp
  have run: "encrypt_then_decrypt ssl w (Some c) pw1 pw2 src enc dst =
      (case crypt_decrypt_ex ssl ?wb (Some enc) (Some ?k7) (Some dst) of (r8, wc) \<Rightarrow>
              (Some 0, Some r8, wc))"
    unfolding encrypt_then_decrypt_def
    by (simp only: n1 s1 s2 s3 s4 n2 s6 s7 prod.case simp_thms if_False)
  show ?thesis
  proof (cases "evp_decrypt ssl (Some c) (Some ky2) (Some v2) ct")
    case None
    then show ?thesis unfolding run s8' using ne2 by simp
  next
    case (Some pt)
    then show ?thesis unfolding run s8' using ne2 by simp
  qed
qed

subsection \<open>The encrypted file\<close>

text \<open>
  Claim C6. Whenever \<open>crypt_encrypt_ex\<close> returns 0 for a handle whose salt has its
  8 bytes, the output file exists, its first 8 bytes are the ASCII characters
  \<open>Salted__\<close> (hexadecimal 53 61 6c 74 65 64 5f 5f), the next 8 bytes are the salt of
  the handle, and the bytes from offset 16 on are the ciphertext: what the library
  delivers for the input (nothing, when the cipher context could not be created).
\<close>

theorem encrypted_file_framing:
  "crypt_encrypt_ex ssl w (Some i) (Some k) (Some out) = (0, w') \<and> length (salt k) = 8 \<longrightarrow>
     (\<exists>bs data. files w' out = Some bs \<and> files w i = Some data \<and>
        take 8 bs = map of_char ''Salted__'' \<and>
        take 8 bs = [0x53, 0x61, 0x6C, 0x74, 0x65, 0x64, 0x5F, 0x5F] \<and>
        take 8 (drop 8 bs) = salt k \<and>
        (if alloc_ok w A_ctx
         then evp_encrypt ssl (encryption k) (key k) (iv k) (if i = out then [] else data)
                = Some (drop 16 bs)
         else drop 16 bs = []))"
proof
  assume a: "crypt_encrypt_ex ssl w (Some i) (Some k) (Some out) = (0, w') \<and> length (salt k) = 8"
  then have z: "crypt_encrypt_ex ssl w (Some i) (Some k) (Some out) = (0, w')"
    and lk: "length (salt k) = 8" by simp_all
  from crypt_encrypt_ex_zero [OF z] obtain data ct where
    src: "files w i = Some data"
    and f: "files w' out = Some (salt_prefix @ take 8 (salt k) @ ct)"
    and c: "if alloc_ok w A_ctx
            then evp_encrypt ssl (encryption k) (key k) (iv k) (if i = out then [] else data) = Some ct
            else ct = []"
    by blast
  let ?bs = "salt_prefix @ salt k @ ct"
  have f': "files w' out = Some ?bs" using f lk by simp
  have t1: "take 8 ?bs = salt_prefix" using length_salt_prefix by simp
  have t2: "take 8 (drop 8 ?bs) = salt k" using length_salt_prefix lk by simp
  have t3: "drop 16 ?bs = ct" using length_salt_prefix lk by simp
  have "take 8 ?bs = map of_char ''Salted__''" unfolding t1 by (simp only: salt_prefix_def)
  moreover have "take 8 ?bs = [0x53, 0x61, 0x6C, 0x74, 0x65, 0x64, 0x5F, 0x5F]"
    unfolding t1 by (rule salt_prefix_bytes)
  moreover have "if alloc_ok w A_ctx
         then evp_encrypt ssl (encryption k) (key k) (iv k) (if i = out then [] else data)
                = Some (drop 16 ?bs)
         else drop 16 ?bs = []"
    unfolding t3 by (rule c)
  ultimately show "\<exists>bs data. files w' out = Some bs \<and> files w i = Some data \<and>
        take 8 bs = map of_char ''Salted__'' \<and>
        take 8 bs = [0x53, 0x61, 0x6C, 0x74, 0x65, 0x64, 0x5F, 0x5F] \<and>
        take 8 (drop 8 bs) = salt k \<and>
        (if alloc_ok w A_ctx
         then evp_encrypt ssl (encryption k) (key k) (iv k) (if i = out then [] else data)
                = Some (drop 16 bs)
         else drop 16 bs = [])"
    using f' src t2 by blast
qed

lemma example_encrypt:
  "crypt_encrypt_ex stream_ssl example_world (Some ''/tmp/plain'') (Some example_keys) (Some ''/tmp/enc'') =
     (0, example_world\<lparr>files := (files example_world)(''/tmp/enc'' \<mapsto>
            [0x53, 0x61, 0x6C, 0x74, 0x65, 0x64, 0x5F, 0x5F, 1, 2, 3, 4, 5, 6, 7, 8, 8, 9, 10])\<rparr>)"
proof -
  have "crypt_encrypt_ex stream_ssl example_world (Some ''/tmp/plain'') (Some example_keys) (Some ''/tmp/enc'') =
     (0, example_world\<lparr>files := (files example_world)(''/tmp/enc'' \<mapsto>
            salt_prefix @ take 8 (salt example_keys) @ [8, 9, 10])\<rparr>)"
    by (rule crypt_encrypt_ex_ok [where data = "[1, 2, 3]"])
       (simp_all add: example_world_def example_keys_def evp_encrypt_example)
  then show ?thesis by (simp add: salt_prefix_bytes example_keys_def)
qed

theorem encrypted_file_framing_witness:
  "crypt_encrypt_ex stream_ssl example_world (Some ''/tmp/plain'') (Some example_keys) (Some ''/tmp/enc'') =
     (0, example_world\<lparr>files := (files example_world)(''/tmp/enc'' \<mapsto>
            [0x53, 0x61, 0x6C, 0x74, 0x65, 0x64, 0x5F, 0x5F, 1, 2, 3, 4, 5, 6, 7, 8, 8, 9, 10])\<rparr>) \<and>
   length (salt example_keys) = 8 \<and>
   (\<exists>bs. files (example_world\<lparr>files := (files example_world)(''/tmp/enc'' \<mapsto>
            [0x53, 0x61, 0x6C, 0x74, 0x65, 0x64, 0x5F, 0x5F, 1, 2, 3, 4, 5, 6, 7, 8, 8, 9, 10])\<rparr>)
           ''/tmp/enc'' = Some bs \<and>
         take 8 bs = map of_char ''Salted__'' \<and>
         take 8 (drop 8 bs) = salt example_keys \<and>
         evp_encrypt stream_ssl (Some ''stream'') (Some [7]) (Some []) [1, 2, 3] = Some (drop 16 bs))"
proof -
  let ?w' = "example_world\<lparr>files := (files example_world)(''/tmp/enc'' \<mapsto>
            [0x53, 0x61, 0x6C, 0x74, 0x65, 0x64, 0x5F, 0x5F, 1, 2, 3, 4, 5, 6, 7, 8, 8, 9, 10])\<rparr>"
  have h1: "crypt_encrypt_ex stream_ssl example_world (Some ''/tmp/plain'') (Some example_keys) (Some ''/tmp/enc'') = (0, ?w')"
    by (rule example_encrypt)
  have h2: "length (salt example_keys) = 8" by (simp add: example_keys_def)
  from encrypted_file_framing [of stream_ssl example_world "''/tmp/plain''" example_keys "''/tmp/enc''" ?w'] h1 h2
  obtain bs data where
    b: "files ?w' ''/tmp/enc'' = Some bs" "files example_world ''/tmp/plain'' = Some data"
       "take 8 bs = map of_char ''Salted__''" "take 8 (drop 8 bs) = salt example_keys"
       "if alloc_ok example_world A_ctx
         then evp_encrypt stream_ssl (encryption example_keys) (key example_keys) (iv example_keys)
                (if ''/tmp/plain'' = ''/tmp/enc'' then [] else data) = Some (drop 16 bs)
         else drop 16 bs = []"
    by blast
  from b(2) have d: "data = [1, 2, 3]" by (simp add: example_world_def)
  from b(5) have "evp_encrypt stream_ssl (Some ''stream'') (Some [7]) (Some []) [1, 2, 3] = Some (drop 16 bs)"
    unfolding d by (simp add: example_world_def example_keys_def)
  with b(1,3,4) h1 h2 show ?thesis by blast
qed

lemma etd_same_password:
  assumes "EVP_BytesToKey ssl (Some c) (EVP_sha256 ssl) s pw1 1 = Some (ky1, v1)"
    and "EVP_BytesToKey ssl (Some c) (EVP_sha256 ssl) s pw2 1 = Some (ky2, v2)"
    and "pw2 = pw1"
  shows "ky2 = ky1 \<and> v2 = v1"
  using assms by simp

text \<open>
  Claim C1, as amended. Let the input file exist, the three paths be distinct where it
  matters, the outputs be writable, every allocation succeed, no write error be
  reported, \<open>RAND_bytes\<close> deliver the salt and \<open>EVP_BytesToKey\<close> deliver keys
  for both passwords, and let the library encrypt the input under the first keys to
  \<open>ct\<close>. Then encryption returns 0, and decryption with the keys of the second
  password returns \<open>-1\<close> and removes its output exactly when the library rejects
  \<open>ct\<close> under those keys; otherwise it returns 0 and the output holds what the
  library delivers. With the same password, if the library decrypts what it encrypted,
  the output is byte-identical to the input.
\<close>

theorem encrypt_then_decrypt_passwords:
  assumes "files w src = Some data" and "src \<noteq> enc" and "enc \<noteq> dst"
    and "enc \<notin> unwritable w" and "dst \<notin> unwritable w"
    and "\<forall>a. alloc_ok w a" and "\<forall>m. \<not> ferror_out w m"
    and "rand_src w (ticks w) = Some r"
    and "EVP_BytesToKey ssl (Some c) (EVP_sha256 ssl) (map r [0..<8]) pw1 1 = Some (ky1, v1)"
    and "EVP_BytesToKey ssl (Some c) (EVP_sha256 ssl) (map r [0..<8]) pw2 1 = Some (ky2, v2)"
    and "evp_encrypt ssl (Some c) (Some ky1) (Some v1) data = Some ct"
  shows "\<exists>w'. encrypt_then_decrypt ssl w (Some c) pw1 pw2 src enc dst =
            (Some 0,
             Some (if evp_decrypt ssl (Some c) (Some ky2) (Some v2) ct = None then - 1 else 0),
             w') \<and>
          files w' dst = evp_decrypt ssl (Some c) (Some ky2) (Some v2) ct \<and>
          (pw2 = pw1 \<and> evp_decrypt ssl (Some c) (Some ky1) (Some v1) ct = Some data \<longrightarrow>
             files w' dst = Some data)"
proof -
  from etd_result [OF assms] obtain w' where
    r: "encrypt_then_decrypt ssl w (Some c) pw1 pw2 src enc dst =
            (Some 0,
             Some (if evp_decrypt ssl (Some c) (Some ky2) (Some v2) ct = None then - 1 else 0),
             w')"
    and f: "files w' dst = evp_decrypt ssl (Some c) (Some ky2) (Some v2) ct"
    by blast
  have "files w' dst = Some data"
    if "pw2 = pw1 \<and> evp_decrypt ssl (Some c) (Some ky1) (Some v1) ct = Some data"
    using etd_same_password [OF assms(9) assms(10)] that f by simp
  with r f show ?thesis by blast
qed

lemma dec_chunks_example:
  "dec_chunks stream_ssl kb [32, 33, 34] = Some (kb, [32 - kb, 33 - kb, 34 - kb])"
  by (simp add: dec_chunks.simps [of _ _ "[32, 33, 34]"] dec_chunks.simps [of _ _ "[]"]
      read_file_def BUFFER_LEN_def stream_ssl_simps)

lemma evp_decrypt_example:
  "evp_decrypt stream_ssl (Some ''stream'') (Some [kb]) (Some []) [32, 33, 34] =
     Some [32 - kb, 33 - kb, 34 - kb]"
  by (simp add: evp_decrypt_def dec_chunks_example stream_ssl_simps)

lemma enc_chunks_example2: "enc_chunks stream_ssl 31 [1, 2, 3] = Some (31, [32, 33, 34])"
  by (simp add: enc_chunks.simps [of _ _ "[1, 2, 3]"] enc_chunks.simps [of _ _ "[]"]
      read_file_def BUFFER_LEN_def stream_ssl_simps)

lemma evp_encrypt_example2:
  "evp_encrypt stream_ssl (Some ''stream'') (Some [31]) (Some []) [1, 2, 3] = Some [32, 33, 34]"
  by (simp add: evp_encrypt_def enc_chunks_example2 stream_ssl_simps)

lemma upt_8: "[0..<8] = [0, 1, 2, 3, 4, 5, 6, 7]"
  by (simp add: upt_rec)

lemma example_world_facts:
  "files example_world ''/tmp/plain'' = Some [1, 2, 3]"
  "''/tmp/enc'' \<notin> unwritable example_world"
  "''/tmp/dec'' \<notin> unwritable example_world"
  "\<forall>a. alloc_ok example_world a"
  "\<forall>m. \<not> ferror_out example_world m"
  "rand_src example_world (ticks example_world) = Some (\<lambda>i. of_nat (0 + i))"
  by (simp_all add: example_world_def)

lemma example_salt: "map (\<lambda>i. of_nat (0 + i)) [0..<8] = [0, 1, 2, 3, 4, 5, 6, 7 :: byte]"
  by (simp add: upt_8)

lemma example_key:
  "EVP_BytesToKey stream_ssl (Some ''stream'') (EVP_sha256 stream_ssl)
     (map (\<lambda>i. of_nat (0 + i)) [0..<8]) pw 1 = Some ([28 + sum_list pw], [])"
  unfolding example_salt by (simp add: stream_ssl_simps)

lemma example_etd:
  "\<exists>w'. encrypt_then_decrypt stream_ssl example_world (Some ''stream'') [1, 2] pw2
           ''/tmp/plain'' ''/tmp/enc'' ''/tmp/dec'' = (Some 0, Some 0, w') \<and>
        files w' ''/tmp/dec'' =
          Some [32 - (28 + sum_list pw2), 33 - (28 + sum_list pw2), 34 - (28 + sum_list pw2)]"
proof -
  have k1: "EVP_BytesToKey stream_ssl (Some ''stream'') (EVP_sha256 stream_ssl)
     (map (\<lambda>i. of_nat (0 + i)) [0..<8]) [1, 2] 1 = Some ([31], [])"
    using example_key [of "[1, 2]"] by simp
  have n1: "''/tmp/plain'' \<noteq> ''/tmp/enc''" and n2: "''/tmp/enc'' \<noteq> ''/tmp/dec''" by simp_all
  note r = etd_result [OF example_world_facts(1) n1 n2 example_world_facts(2-6) k1
      example_key [of pw2] evp_encrypt_example2]
  then show ?thesis by (auto simp add: evp_decrypt_example)
qed

text \<open>
  Claim C1 as it is stated fails: with an unpadded cipher, decryption under the keys of
  another password reports success and writes an output file.
\<close>

theorem other_password_counterexample:
  "[1, 3] \<noteq> [1, 2 :: byte] \<and>
   fst (encrypt_then_decrypt stream_ssl example_world (Some ''stream'') [1, 2] [1, 3]
          ''/tmp/plain'' ''/tmp/enc'' ''/tmp/dec'') = Some 0 \<and>
   fst (snd (encrypt_then_decrypt stream_ssl example_world (Some ''stream'') [1, 2] [1, 3]
          ''/tmp/plain'' ''/tmp/enc'' ''/tmp/dec'')) = Some 0 \<and>
   files (snd (snd (encrypt_then_decrypt stream_ssl example_world (Some ''stream'') [1, 2] [1, 3]
          ''/tmp/plain'' ''/tmp/enc'' ''/tmp/dec''))) ''/tmp/dec'' = Some [0, 1, 2]"
  using example_etd [of "[1, 3]"] by auto

theorem encrypt_then_decrypt_passwords_witness:
  "files example_world ''/tmp/plain'' = Some [1, 2, 3] \<and> ''/tmp/plain'' \<noteq> ''/tmp/enc'' \<and>
   ''/tmp/enc'' \<noteq> ''/tmp/dec'' \<and>
   ''/tmp/enc'' \<notin> unwritable example_world \<and> ''/tmp/dec'' \<notin> unwritable example_world \<and>
   (\<forall>a. alloc_ok example_world a) \<and> (\<forall>m. \<not> ferror_out example_world m) \<and>
   rand_src example_world (ticks example_world) = Some (\<lambda>i. of_nat (0 + i)) \<and>
   EVP_BytesToKey stream_ssl (Some ''stream'') (EVP_sha256 stream_ssl)
     (map (\<lambda>i. of_nat (0 + i)) [0..<8]) [1, 2] 1 = Some ([31], []) \<and>
   evp_encrypt stream_ssl (Some ''stream'') (Some [31]) (Some []) [1, 2, 3] = Some [32, 33, 34] \<and>
   evp_decrypt stream_ssl (Some ''stream'') (Some [31]) (Some []) [32, 33, 34] = Some [1, 2, 3] \<and>
   (\<exists>w'. encrypt_then_decrypt stream_ssl example_world (Some ''stream'') [1, 2] [1, 2]
            ''/tmp/plain'' ''/tmp/enc'' ''/tmp/dec'' = (Some 0, Some 0, w') \<and>
         files w' ''/tmp/dec'' = Some [1, 2, 3])"
proof -
  have k1: "EVP_BytesToKey stream_ssl (Some ''stream'') (EVP_sha256 stream_ssl)
     (map (\<lambda>i. of_nat (0 + i)) [0..<8]) [1, 2] 1 = Some ([31], [])"
    using example_key [of "[1, 2]"] by simp
  have n1: "''/tmp/plain'' \<noteq> ''/tmp/enc''" and n2: "''/tmp/enc'' \<noteq> ''/tmp/dec''" by simp_all
  have d: "evp_decrypt stream_ssl (Some ''stream'') (Some [31]) (Some []) [32, 33, 34] = Some [1, 2, 3]"
    using evp_decrypt_example [of 31] by simp
  from encrypt_then_decrypt_passwords [OF example_world_facts(1) n1 n2 example_world_facts(2-6)
      k1 k1 evp_encrypt_example2]
  obtain w' where
    "encrypt_then_decrypt stream_ssl example_world (Some ''stream'') [1, 2] [1, 2]
            ''/tmp/plain'' ''/tmp/enc'' ''/tmp/dec'' =
       (Some 0, Some (if evp_decrypt stream_ssl (Some ''stream'') (Some [31]) (Some []) [32, 33, 34] = None
                      then - 1 else 0), w')"
    and "[1, 2 :: byte] = [1, 2] \<and>
         evp_decrypt stream_ssl (Some ''stream'') (Some [31]) (Some []) [32, 33, 34] = Some [1, 2, 3]
         \<longrightarrow> files w' ''/tmp/dec'' = Some [1, 2, 3]"
    by blast
  then have "encrypt_then_decrypt stream_ssl example_world (Some ''stream'') [1, 2] [1, 2]
            ''/tmp/plain'' ''/tmp/enc'' ''/tmp/dec'' = (Some 0, Some 0, w') \<and>
         files w' ''/tmp/dec'' = Some [1, 2, 3]"
    using d by simp
  then show ?thesis using example_world_facts n1 n2 k1 evp_encrypt_example2 d by blast
qed

text \<open>
  Claim C4, at the input where it fails. The input file exists, the handle has its keys,
  no write error is reported and the output buffer is allocated, but
  \<open>EVP_CIPHER_CTX_new\<close> returns NULL. \<open>crypt_encrypt_ex\<close> then returns 0, and
  the output file is left on disk with the header and the salt only: the source jumps to
  \<open>cleanup\<close> without setting \<open>ret\<close>.
\<close>

theorem crypt_encrypt_ex_ctx_failure:
  "crypt_encrypt_ex stream_ssl (example_world\<lparr>alloc_ok := (\<lambda>a. a \<noteq> A_ctx)\<rparr>)
      (Some ''/tmp/plain'') (Some example_keys) (Some ''/tmp/enc'') =
   (0, example_world\<lparr>alloc_ok := (\<lambda>a. a \<noteq> A_ctx),
         files := (files example_world)(''/tmp/enc'' \<mapsto>
            [0x53, 0x61, 0x6C, 0x74, 0x65, 0x64, 0x5F, 0x5F, 1, 2, 3, 4, 5, 6, 7, 8])\<rparr>)"
  by (simp add: crypt_encrypt_ex_def fopen_rb_def fopen_wb_def fwrite_def crypt_cleanup_def
      fclose_def example_world_def example_keys_def salt_prefix_bytes)

section \<open>The password buffer and the previous checksums\<close>







lemma prev_world_sel:
  "files prev_world ''/tmp/prev'' = Some (salt_prefix @ [1, 2, 3, 4, 5, 6, 7, 8] @ [0xB5, 0x73, 0x74])"
  "tty prev_world = [Typed [0x70, 0x77] [0x70, 0x77]]"
  "stack prev_world = replicate 1024 0"
  "alloc_ok prev_world a"
  "urandom_src prev_world = None"
  "temp_name prev_world t = Some (t @ ''.1'')"
  "unwritable prev_world = {}"
  "ticks prev_world = 0"
  by (simp_all add: prev_world_def example_world_def salt_prefix_bytes)

lemma prev_getpassword:
  "crypt_getpassword [Typed [0x70, 0x77] [0x70, 0x77]] False (replicate 1024 0) 1024 =
     (0, [0x70, 0x77, 0] @ replicate 1021 0, [])"
  by (simp add: crypt_getpassword_def)

lemma prev_strlen: "strlen ([0x70, 0x77, 0] @ replicate 1021 0) = 2"
  by (simp add: strlen_def)


lemma scrub_password_world:
  "snd (scrub_password w buf) = w\<lparr>ticks := Suc (Suc (ticks w))\<rparr>"
  by (auto simp: scrub_password_def crypt_randc_def crypt_scrub_def tick_def
        split: option.splits prod.splits)

lemma crypt_scrub_files: "files (snd (snd (crypt_scrub w d n))) = files w"
  by (auto simp: crypt_scrub_def tick_def split: option.splits)

lemma crypt_free_files: "files (crypt_free w fk) = files w"
proof (cases fk)
  case None
  then show ?thesis by (simp add: crypt_free_def)
next
  case (Some k)
  obtain r1 b1 w1 where s1: "crypt_scrub w (key k) (key_length k) = (r1, b1, w1)"
    by (cases "crypt_scrub w (key k) (key_length k)") auto
  obtain r2 b2 w2 where s2: "crypt_scrub w1 (iv k) (iv_length k) = (r2, b2, w2)"
    by (cases "crypt_scrub w1 (iv k) (iv_length k)") auto
  have "files w1 = files w" using crypt_scrub_files [of w "key k" "key_length k"] s1 by simp
  moreover have "files w2 = files w1" using crypt_scrub_files [of w1 "iv k" "iv_length k"] s2 by simp
  ultimately show ?thesis using Some s1 s2 by (simp add: crypt_free_def)
qed

lemma tar_extract_empty:
  assumes "files w ta = Some []"
    and "(open_ret (archive_read la (Some [])) \<noteq> ARCHIVE_OK \<and>
          open_ret (archive_read la (Some [])) \<noteq> ARCHIVE_WARN) \<or>
         entries (archive_read la (Some [])) = []"
  shows "tar_extract_file la w (Some ta) (Some fi) (Some fo) = (- 1, w) \<or>
         tar_extract_file la w (Some ta) (Some fi) (Some fo) = (ARCHIVE_EOF, w)"
  using assms by (auto simp: tar_extract_file_def Let_def)

lemma extract_prev_flow:
  assumes al: "\<forall>a. alloc_ok w a"
    and f: "files w i = Some (salt_prefix @ s @ ct)" and ls: "length s = 8"
    and pw: "crypt_getpassword (tty w) False (stack w) 1024 = (0, pwbuffer, t')"
    and ky: "EVP_BytesToKey ssl (Some c) (EVP_sha256 ssl) s (take (strlen pwbuffer) pwbuffer) 1
               = Some (ky, v)"
    and tmp: "temp_name w ''/var/tmp/decrypt_XXXXXX'' = Some tname"
    and ne: "tname \<noteq> out" "tname \<noteq> i" "i \<noteq> out" and wr: "out \<notin> unwritable w"
    and dec: "evp_decrypt ssl (Some c) (Some ky) (Some v) ct = Some pt"
    and la: "(open_ret (archive_read la (Some [])) \<noteq> ARCHIVE_OK \<and>
              open_ret (archive_read la (Some [])) \<noteq> ARCHIVE_WARN) \<or>
             entries (archive_read la (Some [])) = []"
  shows "\<exists>w'. extract_prev_checksums ssl la w (Some i) (Some out) (Some c) =
                 Inr (- 1, fst (scrub_password (w\<lparr>tty := t'\<rparr>) pwbuffer), w') \<and>
              files w' out = Some pt \<and> files w' tname = None"
proof -
  let ?k1 = "zero_keys\<lparr>encryption := Some c, flag_encryption_set := True\<rparr>"
  let ?k2 = "?k1\<lparr>salt := s, flag_salt_extracted := True\<rparr>"
  let ?k4 = "?k2\<lparr>key_length := EVP_CIPHER_key_length ssl (encryption ?k2),
                 iv_length := EVP_CIPHER_iv_length ssl (encryption ?k2),
                 key := Some ky, iv := Some v, flag_keys_set := True\<rparr>"
  let ?w3 = "w\<lparr>tty := t'\<rparr>"
  let ?w4 = "?w3\<lparr>ticks := Suc (Suc (ticks ?w3))\<rparr>"
  let ?w5 = "?w4\<lparr>files := (files ?w4)(tname \<mapsto> [])\<rparr>"
  let ?w6 = "?w5\<lparr>files := (files ?w5)(out \<mapsto> pt)\<rparr>"
  have n1: "crypt_new w = Some zero_keys" using al by (simp add: crypt_new_def)
  have s1: "crypt_set_encryption ssl (Some c) (Some zero_keys) = (0, Some ?k1)"
    by (simp add: crypt_set_encryption_def zero_keys_def)
  have s2: "crypt_extract_salt w (Some i) (Some ?k1) = (0, Some ?k2)"
    by (rule crypt_extract_salt_ok [OF f ls]) (simp add: zero_keys_def)
  have s4: "crypt_gen_keys ssl ?w3 (Some pwbuffer) (int (strlen pwbuffer)) None 1 (Some ?k2)
             = (0, Some ?k4)"
    by (rule gen_keys_with_cipher) (use al ky in simp_all)
  obtain pb where sp: "scrub_password ?w3 pwbuffer = (pb, ?w4)"
    using scrub_password_world [of ?w3 pwbuffer] by (cases "scrub_password ?w3 pwbuffer") simp
  then have pb: "fst (scrub_password ?w3 pwbuffer) = pb" by simp
  have s5: "temp_fopen ?w4 ''/var/tmp/decrypt_XXXXXX'' = (Some tname, ?w5)"
    using tmp by (simp add: temp_fopen_def)
  have f5: "files ?w5 i = Some (salt_prefix @ s @ ct)" using f ne by simp
  have d16: "drop 16 (salt_prefix @ s @ ct) = ct" using length_salt_prefix ls by simp
  have s6: "crypt_decrypt_ex ssl ?w5 (Some i) (Some ?k4) (Some out) =
      (case evp_decrypt ssl (encryption ?k4) (key ?k4) (iv ?k4) (drop 16 (salt_prefix @ s @ ct)) of
         None \<Rightarrow> (- 1, ?w5\<lparr>files := (files ?w5)(out := None)\<rparr>)
       | Some pt \<Rightarrow> (0, ?w5\<lparr>files := (files ?w5)(out \<mapsto> pt)\<rparr>))"
    by (rule crypt_decrypt_ex_eq [OF f5 ne(3)]) (use wr al in simp_all)
  have s6': "crypt_decrypt_ex ssl ?w5 (Some i) (Some ?k4) (Some out) = (0, ?w6)"
    unfolding s6 d16 using dec by simp
  have f6: "files ?w6 tname = Some []" using ne by simp
  from tar_extract_empty [OF f6 la, of "''/checksums''" out]
  obtain r7 where s7: "tar_extract_file la ?w6 (Some tname) (Some ''/checksums'') (Some out) = (r7, ?w6)"
    and r7: "r7 \<noteq> 0"
    by (auto simp: ARCHIVE_EOF_def)
  have keys: "extract_prev_keys ssl w (Some i) (Some c) = Inr (Some ?k4, pb, ?w4)"
    unfolding extract_prev_keys_def
    by (simp only: n1 s1 s2 pw s4 sp prod.case option.case simp_thms if_False if_True)
  have run: "extract_prev_checksums ssl la w (Some i) (Some out) (Some c) =
      Inr (extract_cleanup ?w6 (Some ?k4) (Some tname) (- 1) pb)"
    unfolding extract_prev_checksums_def
    by (simp only: keys s5 s6' s7 r7 prod.case option.case sum.case simp_thms if_False
          if_True option.distinct)
  have fin: "extract_cleanup ?w6 (Some ?k4) (Some tname) (- 1) pb =
      (- 1, pb, (crypt_free ?w6 (Some ?k4))\<lparr>files := (files (crypt_free ?w6 (Some ?k4)))(tname := None)\<rparr>)"
    by (simp add: extract_cleanup_def temp_fclose_def Let_def)
  show ?thesis
    unfolding run fin pb using ne by (simp add: crypt_free_files)
qed

lemma stream_dec_chunks:
  "dec_chunks stream_ssl kb rest = Some (kb, map (\<lambda>b. b - kb) rest)"
proof (induction stream_ssl kb rest rule: dec_chunks.induct)
  case (1 ctx rest)
  show ?case
  proof (cases "0 < length (read_file rest BUFFER_LEN)")
    case False
    then have r: "rest = []" by (simp add: read_file_def BUFFER_LEN_def)
    have "dec_chunks stream_ssl ctx rest = Some (ctx, [])"
      using False by (simp add: dec_chunks.simps [of stream_ssl ctx rest])
    then show ?thesis using r by simp
  next
    case True
    have up: "EVP_DecryptUpdate stream_ssl ctx (read_file rest BUFFER_LEN)
               = Some (ctx, map (\<lambda>b. b - ctx) (take BUFFER_LEN rest))"
      by (simp add: stream_ssl_simps read_file_def)
    have ih: "dec_chunks stream_ssl ctx (drop BUFFER_LEN rest)
               = Some (ctx, map (\<lambda>b. b - ctx) (drop BUFFER_LEN rest))"
      by (rule "1.hyps" [OF True up]) simp
    have "map (\<lambda>b. b - ctx) (take BUFFER_LEN rest) @ map (\<lambda>b. b - ctx) (drop BUFFER_LEN rest)
            = map (\<lambda>b. b - ctx) rest"
      by (simp flip: map_append)
    then show ?thesis using True up ih
      by (simp add: dec_chunks.simps [of stream_ssl ctx rest])
  qed
qed

lemma stream_evp_decrypt:
  "evp_decrypt stream_ssl c (Some [kb]) v data = Some (map (\<lambda>b. b - kb) data)"
  by (simp add: evp_decrypt_def stream_dec_chunks stream_ssl_simps)

lemma prev_flow:
  assumes w: "w = prev_world\<lparr>rand_src := R\<rparr>"
  shows "\<exists>w'. extract_prev_checksums stream_ssl example_la w
                 (Some ''/tmp/prev'') (Some ''/tmp/idx'') (Some ''stream'') =
                 Inr (- 1, fst (scrub_password (w\<lparr>tty := []\<rparr>) ([0x70, 0x77, 0] @ replicate 1021 0)), w') \<and>
              files w' ''/tmp/idx'' = Some [0xAA, 0x68, 0x69] \<and>
              files w' ''/var/tmp/decrypt_XXXXXX.1'' = None"
proof -
  have al: "\<forall>a. alloc_ok w a" unfolding w by (simp add: prev_world_sel)
  have f: "files w ''/tmp/prev'' = Some (salt_prefix @ [1, 2, 3, 4, 5, 6, 7, 8] @ [0xB5, 0x73, 0x74])"
    unfolding w by (simp add: prev_world_sel)
  have pw: "crypt_getpassword (tty w) False (stack w) 1024 = (0, [0x70, 0x77, 0] @ replicate 1021 0, [])"
    unfolding w by (simp add: prev_world_sel prev_getpassword)
  have ky: "EVP_BytesToKey stream_ssl (Some ''stream'') (EVP_sha256 stream_ssl) [1, 2, 3, 4, 5, 6, 7, 8]
       (take (strlen ([0x70, 0x77, 0] @ replicate 1021 0)) ([0x70, 0x77, 0] @ replicate 1021 0)) 1
       = Some ([11], [])"
    unfolding prev_strlen by (simp add: stream_ssl_simps)
  have tmp: "temp_name w ''/var/tmp/decrypt_XXXXXX'' = Some ''/var/tmp/decrypt_XXXXXX.1''"
    unfolding w by (simp add: prev_world_sel)
  have wr: "''/tmp/idx'' \<notin> unwritable w" unfolding w by (simp add: prev_world_sel)
  have dec: "evp_decrypt stream_ssl (Some ''stream'') (Some [11]) (Some []) [0xB5, 0x73, 0x74]
              = Some [0xAA, 0x68, 0x69]"
    by (simp add: stream_evp_decrypt)
  have la: "(open_ret (archive_read example_la (Some [])) \<noteq> ARCHIVE_OK \<and>
              open_ret (archive_read example_la (Some [])) \<noteq> ARCHIVE_WARN) \<or>
             entries (archive_read example_la (Some [])) = []"
    by (simp add: example_la_def)
  show ?thesis
    by (rule extract_prev_flow [OF al f _ pw ky tmp _ _ _ wr dec la]) simp_all
qed

text \<open>
  Claim C3. \<open>extract_prev_checksums\<close> of backup.c creates the temporary file, but
  hands \<open>out\<close> to \<open>crypt_decrypt_ex\<close> as the output, and then extracts
  \<open>/checksums\<close> from the temporary file, which is still empty. On a previous
  archive that holds the member \<open>/checksums\<close> with the bytes \<open>68 69\<close>,
  encrypted under the password typed at the terminal, with every step of the environment
  succeeding, the function commits no fault, returns -1 and leaves in the prior-index
  file the whole decrypted archive (\<open>AA 68 69\<close>) instead of the member. Extracting the
  member from the decrypted archive, as the description asks, returns 0 and gives
  \<open>68 69\<close>.
\<close>

theorem extract_prev_checksums_wrong_files:
  "\<not> isl (extract_prev_checksums stream_ssl example_la prev_world
          (Some ''/tmp/prev'') (Some ''/tmp/idx'') (Some ''stream'')) \<and>
   fst (projr (extract_prev_checksums stream_ssl example_la prev_world
          (Some ''/tmp/prev'') (Some ''/tmp/idx'') (Some ''stream''))) = - 1 \<and>
   files (snd (snd (projr (extract_prev_checksums stream_ssl example_la prev_world
          (Some ''/tmp/prev'') (Some ''/tmp/idx'') (Some ''stream''))))) ''/tmp/idx''
     = Some [0xAA, 0x68, 0x69] \<and>
   fst (tar_extract_file example_la (prev_world\<lparr>files := [''/tmp/tar'' \<mapsto> [0xAA, 0x68, 0x69]]\<rparr>)
          (Some ''/tmp/tar'') (Some ''/checksums'') (Some ''/tmp/idx'')) = 0 \<and>
   files (snd (tar_extract_file example_la (prev_world\<lparr>files := [''/tmp/tar'' \<mapsto> [0xAA, 0x68, 0x69]]\<rparr>)
          (Some ''/tmp/tar'') (Some ''/checksums'') (Some ''/tmp/idx''))) ''/tmp/idx''
     = Some [0x68, 0x69]"
proof -
  have "prev_world = prev_world\<lparr>rand_src := rand_src prev_world\<rparr>" by simp
  from prev_flow [OF this] obtain w' where
    "extract_prev_checksums stream_ssl example_la prev_world
                 (Some ''/tmp/prev'') (Some ''/tmp/idx'') (Some ''stream'') =
                 Inr (- 1, fst (scrub_password (prev_world\<lparr>tty := []\<rparr>) ([0x70, 0x77, 0] @ replicate 1021 0)), w')"
    and "files w' ''/tmp/idx'' = Some [0xAA, 0x68, 0x69]"
    by blast
  moreover have "tar_extract_file example_la (prev_world\<lparr>files := [''/tmp/tar'' \<mapsto> [0xAA, 0x68, 0x69]]\<rparr>)
          (Some ''/tmp/tar'') (Some ''/checksums'') (Some ''/tmp/idx'') =
       (0, prev_world\<lparr>files := [''/tmp/tar'' \<mapsto> [0xAA, 0x68, 0x69], ''/tmp/idx'' \<mapsto> [0x68, 0x69]]\<rparr>)"
    by (simp add: tar_extract_file_def example_la_def Let_def ARCHIVE_OK_def ARCHIVE_EOF_def
          ARCHIVE_WARN_def ARCHIVE_FAILED_def fwrite_def)
  ultimately show ?thesis by simp
qed






section \<open>The walk and the exclusions\<close>























section \<open>What a backup run does after the walk\<close>

subsection \<open>Steps 8 to 10\<close>












subsection \<open>The output of a failed encryption\<close>





subsection \<open>The value of ret at the label cleanup\<close>










text \<open>
  What follows the label \<open>cleanup\<close> when step 8 was reached: \<open>tar_close\<close> has
  freed the handle at backup.c:503, and the cleanup passes the same pointer to
  \<open>tar_close\<close> again at backup.c:524. The C semantics gives no return value to such
  a run; the statements below are about the run up to the label.
\<close>

lemma backup_cleanup_closed_handle:
  "backup_cleanup env la w (Some t) True tfp_tar hashes hashes_prev ret = Inl Use_after_free"
  by (simp add: backup_cleanup_def)




end
